theory Spec2Isabelle
  imports Complex_Main "HOL-Library.Word" "HOL-Library.AList"
begin

section \<open>Byte buffers and the DataView reads of wadParser.js\<close>

text \<open>
  An ArrayBuffer is a list of bytes. A JavaScript exception is a value of type
  \<open>error\<close>: a function that can throw returns \<open>error + 'a\<close>, with \<open>Inl\<close> for the
  exception. \<open>InvalidWAD\<close> is the \<open>Error\<close> thrown by \<open>parse\<close> on a bad header tag,
  \<open>RangeError\<close> is what DataView and typed-array constructors and reads throw out of
  bounds, \<open>TypeError\<close> is a property read on \<open>undefined\<close>.
\<close>

type_synonym byte = "8 word"

datatype error = InvalidWAD | RangeError | TypeError

definition bindE :: "error + 'a \<Rightarrow> ('a \<Rightarrow> error + 'b) \<Rightarrow> error + 'b" where
  "bindE r f = (case r of Inl e \<Rightarrow> Inl e | Inr v \<Rightarrow> f v)"

lemma bindE_cong [fundef_cong]:
  "r = r' \<Longrightarrow> (\<And>v. r' = Inr v \<Longrightarrow> f v = f' v) \<Longrightarrow> bindE r f = bindE r' f'"
  by (cases r') (simp_all add: bindE_def)

lemma bindE_Inr_iff:
  "bindE r f = Inr y \<longleftrightarrow> (\<exists>v. r = Inr v \<and> f v = Inr y)"
  by (cases r) (simp_all add: bindE_def)

lemma bindE_simps [simp]:
  "bindE (Inl e) f = Inl e"
  "bindE (Inr v) f = f v"
  by (simp_all add: bindE_def)

text \<open>
  \<open>new DataView(buffer, byteOffset, byteLength)\<close> and
  \<open>new Uint8Array(buffer, byteOffset, length)\<close>: a negative offset or length, or a range
  that leaves the buffer, throws RangeError. The views are only read, so a view is the
  slice of bytes it covers.
\<close>

definition newDataView :: "byte list \<Rightarrow> int \<Rightarrow> int \<Rightarrow> error + byte list" where
  "newDataView buf byteOffset byteLength =
     (if byteOffset < 0 \<or> byteLength < 0 \<or> int (length buf) < byteOffset + byteLength
      then Inl RangeError
      else Inr (take (nat byteLength) (drop (nat byteOffset) buf)))"

definition getUint8 :: "byte list \<Rightarrow> int \<Rightarrow> error + nat" where
  "getUint8 view i =
     (if i < 0 \<or> int (length view) < i + 1 then Inl RangeError
      else Inr (unat (view ! nat i)))"

definition getInt16 :: "byte list \<Rightarrow> int \<Rightarrow> error + int" where
  "getInt16 view i =
     (if i < 0 \<or> int (length view) < i + 2 then Inl RangeError
      else let u = uint (view ! nat i) + 256 * uint (view ! (nat i + 1))
           in Inr (if u < 32768 then u else u - 65536))"

definition getInt32 :: "byte list \<Rightarrow> int \<Rightarrow> error + int" where
  "getInt32 view i =
     (if i < 0 \<or> int (length view) < i + 4 then Inl RangeError
      else let u = uint (view ! nat i) + 256 * uint (view ! (nat i + 1))
                 + 65536 * uint (view ! (nat i + 2)) + 16777216 * uint (view ! (nat i + 3))
           in Inr (if u < 2147483648 then u else u - 4294967296))"

text \<open>
  \<open>readString(offset, length)\<close>: reads up to \<open>length\<close> bytes of the whole buffer and
  stops at the first zero byte; a read outside the buffer throws.
\<close>

fun readString_loop :: "byte list \<Rightarrow> int \<Rightarrow> nat \<Rightarrow> string \<Rightarrow> error + string" where
  "readString_loop view pos 0 str = Inr str"
| "readString_loop view pos (Suc n) str =
     (case getUint8 view pos of
        Inl e \<Rightarrow> Inl e
      | Inr c \<Rightarrow> if c = 0 then Inr str
                 else readString_loop view (pos + 1) n (str @ [char_of c]))"

definition readString :: "byte list \<Rightarrow> int \<Rightarrow> nat \<Rightarrow> error + string" where
  "readString view pos len = readString_loop view pos len []"

text \<open>
  \<open>String.prototype.trim\<close> on a string of code units below 256: the white space and
  line terminators in that range are 9 to 13, 32 and 160.
\<close>

definition isWhiteSpace :: "char \<Rightarrow> bool" where
  "isWhiteSpace c = ((of_char c :: nat) \<in> {9, 10, 11, 12, 13, 32, 160})"

definition trim :: "string \<Rightarrow> string" where
  "trim s = rev (dropWhile isWhiteSpace (rev (dropWhile isWhiteSpace s)))"

section \<open>The container directory (WADParser.parse, getLump)\<close>

record lump =
  name :: string
  offset :: int
  lsize :: int

text \<open>
  The parser object: the buffer, the directory \<open>lumps\<close> in file order, and \<open>lumpMap\<close>,
  a JavaScript \<open>Map\<close>. \<open>Map.set\<close> on a key that is present replaces its value in
  place and otherwise appends the entry, which is \<open>AList.update\<close>; \<open>Map.get\<close> is
  \<open>map_of\<close>.
\<close>

record wad =
  buffer :: "byte list"
  lumps :: "lump list"
  lumpMap :: "(string \<times> lump) list"

text \<open>The body of the directory loop of \<open>parse\<close>, run \<open>n\<close> more times from \<open>pos\<close>.\<close>

fun parse_loop :: "byte list \<Rightarrow> nat \<Rightarrow> int \<Rightarrow> lump list \<Rightarrow> (string \<times> lump) list
    \<Rightarrow> error + (lump list \<times> (string \<times> lump) list)" where
  "parse_loop view 0 pos ls m = Inr (ls, m)"
| "parse_loop view (Suc n) pos ls m =
     bindE (getInt32 view pos) (\<lambda>lumpOffset.
     bindE (getInt32 view (pos + 4)) (\<lambda>lumpSize.
     bindE (readString view (pos + 8) 8) (\<lambda>s.
       let lumpName = trim s;
           l = \<lparr>name = lumpName, offset = lumpOffset, lsize = lumpSize\<rparr>
       in parse_loop view n (pos + 16) (ls @ [l]) (AList.update lumpName l m))))"

text \<open>
  \<open>new WADParser(arrayBuffer)\<close>: the constructor runs \<open>parse\<close>. The loop
  \<open>for (i = 0; i < numLumps; i++)\<close> runs \<open>nat numLumps\<close> times (not at all for a
  negative count).
\<close>

definition parse :: "byte list \<Rightarrow> error + wad" where
  "parse buf =
     bindE (readString buf 0 4) (\<lambda>header.
       if header \<noteq> ''IWAD'' \<and> header \<noteq> ''PWAD'' then Inl InvalidWAD
       else
         bindE (getInt32 buf 4) (\<lambda>numLumps.
         bindE (getInt32 buf 8) (\<lambda>directoryOffset.
         bindE (parse_loop buf (nat numLumps) directoryOffset [] []) (\<lambda>(ls, m).
           Inr \<lparr>buffer = buf, lumps = ls, lumpMap = m\<rparr>))))"

definition getLump :: "wad \<Rightarrow> string \<Rightarrow> lump option" where
  "getLump w nm = map_of (lumpMap w) nm"

text \<open>The lump count of the header, as \<open>parse\<close> reads it.\<close>

definition headerNumLumps :: "byte list \<Rightarrow> error + int" where
  "headerNumLumps buf = getInt32 buf 4"

text \<open>Positional scanning of the directory: the first and the last entry with a name.\<close>

definition firstNamed :: "lump list \<Rightarrow> string \<Rightarrow> lump option" where
  "firstNamed ls nm = find (\<lambda>l. name l = nm) ls"

definition lastNamed :: "lump list \<Rightarrow> string \<Rightarrow> lump option" where
  "lastNamed ls nm = find (\<lambda>l. name l = nm) (rev ls)"

text \<open>Whether a directory entry's byte range lies within the buffer.\<close>

definition lumpInBuffer :: "byte list \<Rightarrow> lump \<Rightarrow> bool" where
  "lumpInBuffer buf l =
     (0 \<le> offset l \<and> 0 \<le> lsize l \<and> offset l + lsize l \<le> int (length buf))"

subsection \<open>Example containers\<close>

text \<open>
  A patch container whose directory (at offset 12) has two entries named \<open>A\<close>, the
  first at payload offset 0 and the second at payload offset 1.
\<close>

definition dup_wad :: "byte list" where
  "dup_wad = [80, 87, 65, 68,  2, 0, 0, 0,  12, 0, 0, 0,
              0, 0, 0, 0,  0, 0, 0, 0,  65, 0, 0, 0, 0, 0, 0, 0,
              1, 0, 0, 0,  0, 0, 0, 0,  65, 0, 0, 0, 0, 0, 0, 0]"

text \<open>
  A patch container of 28 bytes with one entry \<open>A\<close> whose payload is declared at
  offset 1000 with length 50.
\<close>

definition oob_wad :: "byte list" where
  "oob_wad = [80, 87, 65, 68,  1, 0, 0, 0,  12, 0, 0, 0,
              232, 3, 0, 0,  50, 0, 0, 0,  65, 0, 0, 0, 0, 0, 0, 0]"

text \<open>A patch container of 12 bytes whose header declares \<open>-1\<close> lumps.\<close>

definition neg_wad :: "byte list" where
  "neg_wad = [80, 87, 65, 68,  255, 255, 255, 255,  12, 0, 0, 0]"

section \<open>Map record decoders (WADParser.parseThings and its seven siblings)\<close>

text \<open>
  Each decoder finds its sub-lump by name in the map's slice of the directory, returns
  the empty list when it is missing or of size 0, and otherwise opens a DataView on
  the lump and runs \<open>for (i = 0; i < count; i++)\<close> with \<open>count = lump.size / recordSize\<close>,
  a division of JavaScript numbers that is not rounded. For integers \<open>i < count\<close> is
  \<open>i * recordSize < lump.size\<close>, so the loop also enters a trailing partial record.
  The nested boxes of a node are flattened into the fields \<open>rightBox_top\<close> and so on.
\<close>

record thing =
  thing_x :: int
  thing_y :: int
  thing_angle :: int
  thing_type :: int
  thing_flags :: int

function parseThings_loop :: "byte list \<Rightarrow> int \<Rightarrow> int \<Rightarrow> thing list \<Rightarrow> error + thing list" where
  "parseThings_loop view lumpSize i acc =
     (if i * 10 < lumpSize then
        bindE (getInt16 view (i * 10)) (\<lambda>f0.
        bindE (getInt16 view (i * 10 + 2)) (\<lambda>f1.
        bindE (getInt16 view (i * 10 + 4)) (\<lambda>f2.
        bindE (getInt16 view (i * 10 + 6)) (\<lambda>f3.
        bindE (getInt16 view (i * 10 + 8)) (\<lambda>f4.
          parseThings_loop view lumpSize (i + 1) (acc @ [\<lparr>thing_x = f0, thing_y = f1, thing_angle = f2, thing_type = f3, thing_flags = f4\<rparr>]))))))
      else Inr acc)"
  by pat_completeness auto
termination
  by (relation "measure (\<lambda>(view, lumpSize, i, acc). nat (lumpSize - i * 10))") auto

declare parseThings_loop.simps [simp del]

definition parseThings :: "wad \<Rightarrow> lump list \<Rightarrow> error + thing list" where
  "parseThings w mapLumps =
     (case firstNamed mapLumps ''THINGS'' of
        None \<Rightarrow> Inr []
      | Some l \<Rightarrow>
          if lsize l = 0 then Inr []
          else bindE (newDataView (buffer w) (offset l) (lsize l)) (\<lambda>view.
                 parseThings_loop view (lsize l) 0 []))"

record linedef =
  startVertex :: int
  endVertex :: int
  flags :: int
  lineType :: int
  sectorTag :: int
  frontSidedef :: int
  backSidedef :: int

function parseLinedefs_loop :: "byte list \<Rightarrow> int \<Rightarrow> int \<Rightarrow> linedef list \<Rightarrow> error + linedef list" where
  "parseLinedefs_loop view lumpSize i acc =
     (if i * 14 < lumpSize then
        bindE (getInt16 view (i * 14)) (\<lambda>f0.
        bindE (getInt16 view (i * 14 + 2)) (\<lambda>f1.
        bindE (getInt16 view (i * 14 + 4)) (\<lambda>f2.
        bindE (getInt16 view (i * 14 + 6)) (\<lambda>f3.
        bindE (getInt16 view (i * 14 + 8)) (\<lambda>f4.
        bindE (getInt16 view (i * 14 + 10)) (\<lambda>f5.
        bindE (getInt16 view (i * 14 + 12)) (\<lambda>f6.
          parseLinedefs_loop view lumpSize (i + 1) (acc @ [\<lparr>startVertex = f0, endVertex = f1, flags = f2, lineType = f3, sectorTag = f4, frontSidedef = f5, backSidedef = f6\<rparr>]))))))))
      else Inr acc)"
  by pat_completeness auto
termination
  by (relation "measure (\<lambda>(view, lumpSize, i, acc). nat (lumpSize - i * 14))") auto

declare parseLinedefs_loop.simps [simp del]

definition parseLinedefs :: "wad \<Rightarrow> lump list \<Rightarrow> error + linedef list" where
  "parseLinedefs w mapLumps =
     (case firstNamed mapLumps ''LINEDEFS'' of
        None \<Rightarrow> Inr []
      | Some l \<Rightarrow>
          if lsize l = 0 then Inr []
          else bindE (newDataView (buffer w) (offset l) (lsize l)) (\<lambda>view.
                 parseLinedefs_loop view (lsize l) 0 []))"

record sidedef =
  xOffset :: int
  yOffset :: int
  upperTexture :: string
  lowerTexture :: string
  middleTexture :: string
  sector :: int

function parseSidedefs_loop :: "byte list \<Rightarrow> int \<Rightarrow> byte list \<Rightarrow> int \<Rightarrow> int \<Rightarrow> sidedef list \<Rightarrow> error + sidedef list" where
  "parseSidedefs_loop buf lumpOffset view lumpSize i acc =
     (if i * 30 < lumpSize then
        bindE (getInt16 view (i * 30)) (\<lambda>f0.
        bindE (getInt16 view (i * 30 + 2)) (\<lambda>f1.
        bindE (readString buf (lumpOffset + i * 30 + 4) 8) (\<lambda>f2.
        bindE (readString buf (lumpOffset + i * 30 + 12) 8) (\<lambda>f3.
        bindE (readString buf (lumpOffset + i * 30 + 20) 8) (\<lambda>f4.
        bindE (getInt16 view (i * 30 + 28)) (\<lambda>f5.
          parseSidedefs_loop buf lumpOffset view lumpSize (i + 1) (acc @ [\<lparr>xOffset = f0, yOffset = f1, upperTexture = trim f2, lowerTexture = trim f3, middleTexture = trim f4, sector = f5\<rparr>])))))))
      else Inr acc)"
  by pat_completeness auto
termination
  by (relation "measure (\<lambda>(buf, lumpOffset, view, lumpSize, i, acc). nat (lumpSize - i * 30))") auto

declare parseSidedefs_loop.simps [simp del]

definition parseSidedefs :: "wad \<Rightarrow> lump list \<Rightarrow> error + sidedef list" where
  "parseSidedefs w mapLumps =
     (case firstNamed mapLumps ''SIDEDEFS'' of
        None \<Rightarrow> Inr []
      | Some l \<Rightarrow>
          if lsize l = 0 then Inr []
          else bindE (newDataView (buffer w) (offset l) (lsize l)) (\<lambda>view.
                 parseSidedefs_loop (buffer w) (offset l) view (lsize l) 0 []))"

record vertex =
  vx :: int
  vy :: int

function parseVertexes_loop :: "byte list \<Rightarrow> int \<Rightarrow> int \<Rightarrow> vertex list \<Rightarrow> error + vertex list" where
  "parseVertexes_loop view lumpSize i acc =
     (if i * 4 < lumpSize then
        bindE (getInt16 view (i * 4)) (\<lambda>f0.
        bindE (getInt16 view (i * 4 + 2)) (\<lambda>f1.
          parseVertexes_loop view lumpSize (i + 1) (acc @ [\<lparr>vx = f0, vy = f1\<rparr>])))
      else Inr acc)"
  by pat_completeness auto
termination
  by (relation "measure (\<lambda>(view, lumpSize, i, acc). nat (lumpSize - i * 4))") auto

declare parseVertexes_loop.simps [simp del]

definition parseVertexes :: "wad \<Rightarrow> lump list \<Rightarrow> error + vertex list" where
  "parseVertexes w mapLumps =
     (case firstNamed mapLumps ''VERTEXES'' of
        None \<Rightarrow> Inr []
      | Some l \<Rightarrow>
          if lsize l = 0 then Inr []
          else bindE (newDataView (buffer w) (offset l) (lsize l)) (\<lambda>view.
                 parseVertexes_loop view (lsize l) 0 []))"

record sector =
  sec_floorHeight :: int
  sec_ceilingHeight :: int
  floorTexture :: string
  ceilingTexture :: string
  lightLevel :: int
  sec_special :: int
  tag :: int

function parseSectors_loop :: "byte list \<Rightarrow> int \<Rightarrow> byte list \<Rightarrow> int \<Rightarrow> int \<Rightarrow> sector list \<Rightarrow> error + sector list" where
  "parseSectors_loop buf lumpOffset view lumpSize i acc =
     (if i * 26 < lumpSize then
        bindE (getInt16 view (i * 26)) (\<lambda>f0.
        bindE (getInt16 view (i * 26 + 2)) (\<lambda>f1.
        bindE (readString buf (lumpOffset + i * 26 + 4) 8) (\<lambda>f2.
        bindE (readString buf (lumpOffset + i * 26 + 12) 8) (\<lambda>f3.
        bindE (getInt16 view (i * 26 + 20)) (\<lambda>f4.
        bindE (getInt16 view (i * 26 + 22)) (\<lambda>f5.
        bindE (getInt16 view (i * 26 + 24)) (\<lambda>f6.
          parseSectors_loop buf lumpOffset view lumpSize (i + 1) (acc @ [\<lparr>sec_floorHeight = f0, sec_ceilingHeight = f1, floorTexture = trim f2, ceilingTexture = trim f3, lightLevel = f4, sec_special = f5, tag = f6\<rparr>]))))))))
      else Inr acc)"
  by pat_completeness auto
termination
  by (relation "measure (\<lambda>(buf, lumpOffset, view, lumpSize, i, acc). nat (lumpSize - i * 26))") auto

declare parseSectors_loop.simps [simp del]

definition parseSectors :: "wad \<Rightarrow> lump list \<Rightarrow> error + sector list" where
  "parseSectors w mapLumps =
     (case firstNamed mapLumps ''SECTORS'' of
        None \<Rightarrow> Inr []
      | Some l \<Rightarrow>
          if lsize l = 0 then Inr []
          else bindE (newDataView (buffer w) (offset l) (lsize l)) (\<lambda>view.
                 parseSectors_loop (buffer w) (offset l) view (lsize l) 0 []))"

record seg =
  seg_startVertex :: int
  seg_endVertex :: int
  seg_angle :: int
  seg_linedef :: int
  direction :: int
  seg_offset :: int

function parseSegs_loop :: "byte list \<Rightarrow> int \<Rightarrow> int \<Rightarrow> seg list \<Rightarrow> error + seg list" where
  "parseSegs_loop view lumpSize i acc =
     (if i * 12 < lumpSize then
        bindE (getInt16 view (i * 12)) (\<lambda>f0.
        bindE (getInt16 view (i * 12 + 2)) (\<lambda>f1.
        bindE (getInt16 view (i * 12 + 4)) (\<lambda>f2.
        bindE (getInt16 view (i * 12 + 6)) (\<lambda>f3.
        bindE (getInt16 view (i * 12 + 8)) (\<lambda>f4.
        bindE (getInt16 view (i * 12 + 10)) (\<lambda>f5.
          parseSegs_loop view lumpSize (i + 1) (acc @ [\<lparr>seg_startVertex = f0, seg_endVertex = f1, seg_angle = f2, seg_linedef = f3, direction = f4, seg_offset = f5\<rparr>])))))))
      else Inr acc)"
  by pat_completeness auto
termination
  by (relation "measure (\<lambda>(view, lumpSize, i, acc). nat (lumpSize - i * 12))") auto

declare parseSegs_loop.simps [simp del]

definition parseSegs :: "wad \<Rightarrow> lump list \<Rightarrow> error + seg list" where
  "parseSegs w mapLumps =
     (case firstNamed mapLumps ''SEGS'' of
        None \<Rightarrow> Inr []
      | Some l \<Rightarrow>
          if lsize l = 0 then Inr []
          else bindE (newDataView (buffer w) (offset l) (lsize l)) (\<lambda>view.
                 parseSegs_loop view (lsize l) 0 []))"

record ssector =
  segCount :: int
  firstSeg :: int

function parseSSectors_loop :: "byte list \<Rightarrow> int \<Rightarrow> int \<Rightarrow> ssector list \<Rightarrow> error + ssector list" where
  "parseSSectors_loop view lumpSize i acc =
     (if i * 4 < lumpSize then
        bindE (getInt16 view (i * 4)) (\<lambda>f0.
        bindE (getInt16 view (i * 4 + 2)) (\<lambda>f1.
          parseSSectors_loop view lumpSize (i + 1) (acc @ [\<lparr>segCount = f0, firstSeg = f1\<rparr>])))
      else Inr acc)"
  by pat_completeness auto
termination
  by (relation "measure (\<lambda>(view, lumpSize, i, acc). nat (lumpSize - i * 4))") auto

declare parseSSectors_loop.simps [simp del]

definition parseSSectors :: "wad \<Rightarrow> lump list \<Rightarrow> error + ssector list" where
  "parseSSectors w mapLumps =
     (case firstNamed mapLumps ''SSECTORS'' of
        None \<Rightarrow> Inr []
      | Some l \<Rightarrow>
          if lsize l = 0 then Inr []
          else bindE (newDataView (buffer w) (offset l) (lsize l)) (\<lambda>view.
                 parseSSectors_loop view (lsize l) 0 []))"

record node =
  node_x :: int
  node_y :: int
  node_dx :: int
  node_dy :: int
  rightBox_top :: int
  rightBox_bottom :: int
  rightBox_left :: int
  rightBox_right :: int
  leftBox_top :: int
  leftBox_bottom :: int
  leftBox_left :: int
  leftBox_right :: int
  rightChild :: int
  leftChild :: int

function parseNodes_loop :: "byte list \<Rightarrow> int \<Rightarrow> int \<Rightarrow> node list \<Rightarrow> error + node list" where
  "parseNodes_loop view lumpSize i acc =
     (if i * 28 < lumpSize then
        bindE (getInt16 view (i * 28)) (\<lambda>f0.
        bindE (getInt16 view (i * 28 + 2)) (\<lambda>f1.
        bindE (getInt16 view (i * 28 + 4)) (\<lambda>f2.
        bindE (getInt16 view (i * 28 + 6)) (\<lambda>f3.
        bindE (getInt16 view (i * 28 + 8)) (\<lambda>f4.
        bindE (getInt16 view (i * 28 + 10)) (\<lambda>f5.
        bindE (getInt16 view (i * 28 + 12)) (\<lambda>f6.
        bindE (getInt16 view (i * 28 + 14)) (\<lambda>f7.
        bindE (getInt16 view (i * 28 + 16)) (\<lambda>f8.
        bindE (getInt16 view (i * 28 + 18)) (\<lambda>f9.
        bindE (getInt16 view (i * 28 + 20)) (\<lambda>f10.
        bindE (getInt16 view (i * 28 + 22)) (\<lambda>f11.
        bindE (getInt16 view (i * 28 + 24)) (\<lambda>f12.
        bindE (getInt16 view (i * 28 + 26)) (\<lambda>f13.
          parseNodes_loop view lumpSize (i + 1) (acc @ [\<lparr>node_x = f0, node_y = f1, node_dx = f2, node_dy = f3, rightBox_top = f4, rightBox_bottom = f5, rightBox_left = f6, rightBox_right = f7, leftBox_top = f8, leftBox_bottom = f9, leftBox_left = f10, leftBox_right = f11, rightChild = f12, leftChild = f13\<rparr>])))))))))))))))
      else Inr acc)"
  by pat_completeness auto
termination
  by (relation "measure (\<lambda>(view, lumpSize, i, acc). nat (lumpSize - i * 28))") auto

declare parseNodes_loop.simps [simp del]

definition parseNodes :: "wad \<Rightarrow> lump list \<Rightarrow> error + node list" where
  "parseNodes w mapLumps =
     (case firstNamed mapLumps ''NODES'' of
        None \<Rightarrow> Inr []
      | Some l \<Rightarrow>
          if lsize l = 0 then Inr []
          else bindE (newDataView (buffer w) (offset l) (lsize l)) (\<lambda>view.
                 parseNodes_loop view (lsize l) 0 []))"

section \<open>Loading a map (WADParser.getMap)\<close>

text \<open>\<open>Array.prototype.findIndex\<close>, with \<open>None\<close> for \<open>-1\<close>.\<close>

fun findIndex :: "('a \<Rightarrow> bool) \<Rightarrow> 'a list \<Rightarrow> nat option" where
  "findIndex P [] = None"
| "findIndex P (x # xs) = (if P x then Some 0 else map_option Suc (findIndex P xs))"

text \<open>The test \<open>/^(E\dM\d|MAP\d{2})$/\<close> on a lump name.\<close>

definition isDigit :: "char \<Rightarrow> bool" where
  "isDigit c = (48 \<le> (of_char c :: nat) \<and> (of_char c :: nat) \<le> 57)"

fun isMapName :: "string \<Rightarrow> bool" where
  "isMapName [a, b, c, d] = (a = CHR ''E'' \<and> isDigit b \<and> c = CHR ''M'' \<and> isDigit d)"
| "isMapName [a, b, c, d, e] =
     (a = CHR ''M'' \<and> b = CHR ''A'' \<and> c = CHR ''P'' \<and> isDigit d \<and> isDigit e)"
| "isMapName s = False"

text \<open>
  The slice of the directory that belongs to a map: from the first lump with the
  map's name up to the next lump with a map name, or to the end.
\<close>

definition mapLumpsOf :: "lump list \<Rightarrow> string \<Rightarrow> lump list option" where
  "mapLumpsOf ls mapName =
     (case findIndex (\<lambda>l. name l = mapName) ls of
        None \<Rightarrow> None
      | Some mapIndex \<Rightarrow>
          let endIndex =
                (case findIndex (\<lambda>l. isMapName (name l)) (drop (mapIndex + 1) ls) of
                   None \<Rightarrow> length ls
                 | Some k \<Rightarrow> mapIndex + 1 + k)
          in Some (take (endIndex - mapIndex) (drop mapIndex ls)))"

record doomMap =
  map_name :: string
  things :: "thing list"
  linedefs :: "linedef list"
  sidedefs :: "sidedef list"
  vertexes :: "vertex list"
  sectors :: "sector list"
  segs :: "seg list"
  ssectors :: "ssector list"
  nodes :: "node list"

text \<open>
  \<open>getMap\<close> returns \<open>null\<close> (here \<open>None\<close>) for an unknown map name; the eight
  decoders run in the order of the object literal, and an exception of any of them
  leaves \<open>getMap\<close>.
\<close>

definition getMap :: "wad \<Rightarrow> string \<Rightarrow> error + doomMap option" where
  "getMap w mapName =
     (case mapLumpsOf (lumps w) mapName of
        None \<Rightarrow> Inr None
      | Some mapLumps \<Rightarrow>
          bindE (parseThings w mapLumps) (\<lambda>t.
          bindE (parseLinedefs w mapLumps) (\<lambda>l.
          bindE (parseSidedefs w mapLumps) (\<lambda>sd.
          bindE (parseVertexes w mapLumps) (\<lambda>v.
          bindE (parseSectors w mapLumps) (\<lambda>sc.
          bindE (parseSegs w mapLumps) (\<lambda>sg.
          bindE (parseSSectors w mapLumps) (\<lambda>ss.
          bindE (parseNodes w mapLumps) (\<lambda>n.
            Inr (Some \<lparr>map_name = mapName, things = t, linedefs = l, sidedefs = sd,
                        vertexes = v, sectors = sc, segs = sg, ssectors = ss,
                        nodes = n\<rparr>))))))))))"

text \<open>
  A map's slice has a truncated sub-lump \<open>nm\<close> when the first lump of that name has a
  byte length that is not a multiple of the record size.
\<close>

definition truncatedLump :: "lump list \<Rightarrow> string \<Rightarrow> int \<Rightarrow> bool" where
  "truncatedLump mapLumps nm recordSize =
     (case firstNamed mapLumps nm of
        None \<Rightarrow> False
      | Some l \<Rightarrow> lsize l mod recordSize \<noteq> 0)"

text \<open>A result that is a value or the exception RangeError.\<close>

definition throwsOnlyRangeError :: "error + 'a \<Rightarrow> bool" where
  "throwsOnlyRangeError r = (case r of Inl e \<Rightarrow> e = RangeError | Inr v \<Rightarrow> True)"

subsection \<open>Example: a map whose sub-lumps are all 5 bytes long\<close>

text \<open>
  A patch container of 161 bytes: the header, 5 payload bytes at offset 12, and at
  offset 17 a directory of nine entries, the map marker \<open>E1M1\<close> followed by the eight
  sub-lumps, each declared at offset 12 with length 5.
\<close>

definition trunc_wad :: "byte list" where
  "trunc_wad =
    [80, 87, 65, 68, 9, 0, 0, 0, 17, 0, 0, 0, 0, 0, 0, 0,
     0, 0, 0, 0, 0, 0, 0, 0, 0, 69, 49, 77, 49, 0, 0, 0,
     0, 12, 0, 0, 0, 5, 0, 0, 0, 84, 72, 73, 78, 71, 83, 0,
     0, 12, 0, 0, 0, 5, 0, 0, 0, 76, 73, 78, 69, 68, 69, 70,
     83, 12, 0, 0, 0, 5, 0, 0, 0, 83, 73, 68, 69, 68, 69, 70,
     83, 12, 0, 0, 0, 5, 0, 0, 0, 86, 69, 82, 84, 69, 88, 69,
     83, 12, 0, 0, 0, 5, 0, 0, 0, 83, 69, 67, 84, 79, 82, 83,
     0, 12, 0, 0, 0, 5, 0, 0, 0, 83, 69, 71, 83, 0, 0, 0,
     0, 12, 0, 0, 0, 5, 0, 0, 0, 83, 83, 69, 67, 84, 79, 82,
     83, 12, 0, 0, 0, 5, 0, 0, 0, 78, 79, 68, 69, 83, 0, 0,
     0]"

definition trunc_lumps :: "lump list" where
  "trunc_lumps =
    [\<lparr>name = ''E1M1'', offset = 0, lsize = 0\<rparr>,
     \<lparr>name = ''THINGS'', offset = 12, lsize = 5\<rparr>,
     \<lparr>name = ''LINEDEFS'', offset = 12, lsize = 5\<rparr>,
     \<lparr>name = ''SIDEDEFS'', offset = 12, lsize = 5\<rparr>,
     \<lparr>name = ''VERTEXES'', offset = 12, lsize = 5\<rparr>,
     \<lparr>name = ''SECTORS'', offset = 12, lsize = 5\<rparr>,
     \<lparr>name = ''SEGS'', offset = 12, lsize = 5\<rparr>,
     \<lparr>name = ''SSECTORS'', offset = 12, lsize = 5\<rparr>,
     \<lparr>name = ''NODES'', offset = 12, lsize = 5\<rparr>]"

definition trunc_parsed :: wad where
  "trunc_parsed =
     \<lparr>buffer = trunc_wad, lumps = trunc_lumps, lumpMap = map (\<lambda>l. (name l, l)) trunc_lumps\<rparr>"

section \<open>The palette (WADParser.getLumpData, getPalette, getDefaultPalette)\<close>

text \<open>
  \<open>getLumpData\<close> returns \<open>null\<close> (here \<open>None\<close>) for an unknown name and otherwise a
  \<open>Uint8Array\<close> on the lump's bytes, whose constructor throws like that of a DataView.
\<close>

definition newUint8Array :: "byte list \<Rightarrow> int \<Rightarrow> int \<Rightarrow> error + byte list" where
  "newUint8Array buf byteOffset len = newDataView buf byteOffset len"

definition getLumpData :: "wad \<Rightarrow> string \<Rightarrow> error + byte list option" where
  "getLumpData w nm =
     (case getLump w nm of
        None \<Rightarrow> Inr None
      | Some l \<Rightarrow> bindE (newUint8Array (buffer w) (offset l) (lsize l)) (\<lambda>d. Inr (Some d)))"

text \<open>A palette is an array of colours \<open>[r, g, b]\<close>.\<close>

type_synonym palette = "(nat \<times> nat \<times> nat) list"

definition getDefaultPalette :: palette where
  "getDefaultPalette = map (\<lambda>i. (i, i, i)) [0..<256]"

definition getPalette :: "wad \<Rightarrow> error + palette" where
  "getPalette w =
     bindE (getLumpData w ''PLAYPAL'') (\<lambda>playpal.
       case playpal of
         None \<Rightarrow> Inr getDefaultPalette
       | Some d \<Rightarrow>
           if length d < 768 then Inr getDefaultPalette
           else Inr (map (\<lambda>i. (unat (d ! (i * 3)), unat (d ! (i * 3 + 1)), unat (d ! (i * 3 + 2))))
                      [0..<256]))"

subsection \<open>Example containers with a PLAYPAL lump\<close>

text \<open>
  A patch container of 31 bytes whose lump PLAYPAL is the 3 bytes at offset 12, and one
  of 28 bytes whose lump PLAYPAL is declared at offset 1000 with length 50.
\<close>

definition pal_wad :: "byte list" where
  "pal_wad =
    [80, 87, 65, 68, 1, 0, 0, 0, 15, 0, 0, 0, 1, 2, 3, 12,
     0, 0, 0, 3, 0, 0, 0, 80, 76, 65, 89, 80, 65, 76, 0]"

definition pal_parsed :: wad where
  "pal_parsed =
     \<lparr>buffer = pal_wad,
      lumps = [\<lparr>name = ''PLAYPAL'', offset = 12, lsize = 3\<rparr>],
      lumpMap = [(''PLAYPAL'', \<lparr>name = ''PLAYPAL'', offset = 12, lsize = 3\<rparr>)]\<rparr>"

definition pal_oob_wad :: "byte list" where
  "pal_oob_wad =
    [80, 87, 65, 68, 1, 0, 0, 0, 12, 0, 0, 0, 232, 3, 0, 0,
     50, 0, 0, 0, 80, 76, 65, 89, 80, 65, 76, 0]"

definition pal_oob_parsed :: wad where
  "pal_oob_parsed =
     \<lparr>buffer = pal_oob_wad,
      lumps = [\<lparr>name = ''PLAYPAL'', offset = 1000, lsize = 50\<rparr>],
      lumpMap = [(''PLAYPAL'', \<lparr>name = ''PLAYPAL'', offset = 1000, lsize = 50\<rparr>)]\<rparr>"

section \<open>Collision lines (MapRenderer.buildWalls)\<close>

text \<open>
  A read \<open>xs[i]\<close> of a JavaScript array: \<open>undefined\<close> (here \<open>None\<close>) when the index
  is negative or not below the length.
\<close>

definition arrayGet :: "'a list \<Rightarrow> int \<Rightarrow> 'a option" where
  "arrayGet xs i = (if 0 \<le> i \<and> i < int (length xs) then Some (xs ! nat i) else None)"

text \<open>
  A collision line. A solid wall is pushed as \<open>{x1, y1, x2, y2}\<close>: its \<open>isDoor\<close> is
  \<open>undefined\<close>, which every test of the program reads as false, and it has neither
  \<open>special\<close> nor \<open>linedefIndex\<close>.
\<close>

record collisionLine =
  lx1 :: int
  ly1 :: int
  lx2 :: int
  ly2 :: int
  isDoor :: bool
  special :: "int option"
  linedefIndex :: "nat option"

definition doorTypes :: "int list" where
  "doorTypes = [1, 26, 27, 28, 29, 31, 32, 33, 34, 46, 117, 118, 119]"

text \<open>
  \<open>linedef.special\<close>: the objects that \<open>parseLinedefs\<close> builds have the properties
  \<open>startVertex\<close>, \<open>endVertex\<close>, \<open>flags\<close>, \<open>lineType\<close>, \<open>sectorTag\<close>, \<open>frontSidedef\<close>
  and \<open>backSidedef\<close>; they have no property \<open>special\<close>, so the read yields
  \<open>undefined\<close> (here \<open>None\<close>) whatever the linedef. \<open>Array.prototype.includes\<close> on
  an array of numbers is false for \<open>undefined\<close>.
\<close>

definition linedef_special :: "linedef \<Rightarrow> int option" where
  "linedef_special ld = None"

definition arrayIncludes :: "int list \<Rightarrow> int option \<Rightarrow> bool" where
  "arrayIncludes xs v = (case v of None \<Rightarrow> False | Some n \<Rightarrow> n \<in> set xs)"

text \<open>
  The body of the loop of \<open>buildWalls\<close> for linedef \<open>i\<close>: the collision lines it
  pushes. \<open>createWall\<close> only adds a mesh to the scene and is left out. Reading
  \<open>.sector\<close> of a sidedef that does not exist throws TypeError.
\<close>

definition wallLines :: "doomMap \<Rightarrow> nat \<Rightarrow> linedef \<Rightarrow> error + collisionLine list" where
  "wallLines m i ld =
     (case (arrayGet (vertexes m) (startVertex ld), arrayGet (vertexes m) (endVertex ld)) of
        (Some v1, Some v2) \<Rightarrow>
          if frontSidedef ld \<noteq> - 1 then
            (case arrayGet (sidedefs m) (frontSidedef ld) of
               None \<Rightarrow> Inl TypeError
             | Some sd \<Rightarrow>
                 (case arrayGet (sectors m) (sector sd) of
                    None \<Rightarrow> Inr []
                  | Some sec \<Rightarrow>
                      if backSidedef ld \<noteq> - 1 then
                        (case arrayGet (sidedefs m) (backSidedef ld) of
                           None \<Rightarrow> Inl TypeError
                         | Some backSd \<Rightarrow>
                             (case arrayGet (sectors m) (sector backSd) of
                                None \<Rightarrow> Inr []
                              | Some backSec \<Rightarrow>
                                  if arrayIncludes doorTypes (linedef_special ld)
                                  then Inr [\<lparr>lx1 = vx v1, ly1 = vy v1, lx2 = vx v2, ly2 = vy v2,
                                             isDoor = True, special = linedef_special ld,
                                             linedefIndex = Some i\<rparr>]
                                  else Inr []))
                      else Inr [\<lparr>lx1 = vx v1, ly1 = vy v1, lx2 = vx v2, ly2 = vy v2,
                                 isDoor = False, special = None, linedefIndex = None\<rparr>]))
          else Inr []
      | _ \<Rightarrow> Inr [])"

fun buildWalls_loop :: "doomMap \<Rightarrow> nat \<Rightarrow> linedef list \<Rightarrow> collisionLine list
    \<Rightarrow> error + collisionLine list" where
  "buildWalls_loop m i [] collisionLines = Inr collisionLines"
| "buildWalls_loop m i (ld # rest) collisionLines =
     bindE (wallLines m i ld) (\<lambda>new. buildWalls_loop m (i + 1) rest (collisionLines @ new))"

text \<open>\<open>buildWalls\<close>, as the value of \<open>this.collisionLines\<close> when it returns.\<close>

definition buildWalls :: "doomMap \<Rightarrow> error + collisionLine list" where
  "buildWalls m = buildWalls_loop m 0 (linedefs m) []"

subsection \<open>Example: a map with one door linedef\<close>

text \<open>
  A patch container of 200 bytes with the map \<open>E1M1\<close>: the vertices (0, 0) and (64, 0),
  one sector with floor 0 and ceiling 128, two sidedefs in that sector, and one
  two-sided linedef from vertex 0 to vertex 1 with line type 1 (a door), front sidedef
  0 and back sidedef 1.
\<close>

definition door_wad :: "byte list" where
  "door_wad =
    [80, 87, 65, 68, 5, 0, 0, 0, 120, 0, 0, 0, 0, 0, 1, 0,
     4, 0, 1, 0, 0, 0, 0, 0, 1, 0, 0, 0, 0, 0, 45, 0,
     0, 0, 0, 0, 0, 0, 45, 0, 0, 0, 0, 0, 0, 0, 45, 0,
     0, 0, 0, 0, 0, 0, 0, 0, 0, 0, 0, 0, 45, 0, 0, 0,
     0, 0, 0, 0, 45, 0, 0, 0, 0, 0, 0, 0, 45, 0, 0, 0,
     0, 0, 0, 0, 0, 0, 0, 0, 0, 0, 64, 0, 0, 0, 0, 0,
     128, 0, 70, 76, 65, 84, 49, 0, 0, 0, 70, 76, 65, 84, 49, 0,
     0, 0, 160, 0, 0, 0, 0, 0, 0, 0, 0, 0, 0, 0, 0, 0,
     69, 49, 77, 49, 0, 0, 0, 0, 12, 0, 0, 0, 14, 0, 0, 0,
     76, 73, 78, 69, 68, 69, 70, 83, 26, 0, 0, 0, 60, 0, 0, 0,
     83, 73, 68, 69, 68, 69, 70, 83, 86, 0, 0, 0, 8, 0, 0, 0,
     86, 69, 82, 84, 69, 88, 69, 83, 94, 0, 0, 0, 26, 0, 0, 0,
     83, 69, 67, 84, 79, 82, 83, 0]"

definition door_parsed :: wad where
  "door_parsed =
     \<lparr>buffer = door_wad,
      lumps =
        [\<lparr>name = ''E1M1'', offset = 0, lsize = 0\<rparr>,
         \<lparr>name = ''LINEDEFS'', offset = 12, lsize = 14\<rparr>,
         \<lparr>name = ''SIDEDEFS'', offset = 26, lsize = 60\<rparr>,
         \<lparr>name = ''VERTEXES'', offset = 86, lsize = 8\<rparr>,
         \<lparr>name = ''SECTORS'', offset = 94, lsize = 26\<rparr>],
      lumpMap = map (\<lambda>l. (name l, l))
        [\<lparr>name = ''E1M1'', offset = 0, lsize = 0\<rparr>,
         \<lparr>name = ''LINEDEFS'', offset = 12, lsize = 14\<rparr>,
         \<lparr>name = ''SIDEDEFS'', offset = 26, lsize = 60\<rparr>,
         \<lparr>name = ''VERTEXES'', offset = 86, lsize = 8\<rparr>,
         \<lparr>name = ''SECTORS'', offset = 94, lsize = 26\<rparr>]\<rparr>"

definition door_linedef :: linedef where
  "door_linedef =
     \<lparr>startVertex = 0, endVertex = 1, flags = 4, lineType = 1, sectorTag = 0,
      frontSidedef = 0, backSidedef = 1\<rparr>"

definition door_map :: doomMap where
  "door_map =
     \<lparr>map_name = ''E1M1'', things = [],
      linedefs = [door_linedef],
      sidedefs =
        [\<lparr>xOffset = 0, yOffset = 0, upperTexture = ''-'', lowerTexture = ''-'',
          middleTexture = ''-'', sector = 0\<rparr>,
         \<lparr>xOffset = 0, yOffset = 0, upperTexture = ''-'', lowerTexture = ''-'',
          middleTexture = ''-'', sector = 0\<rparr>],
      vertexes = [\<lparr>vx = 0, vy = 0\<rparr>, \<lparr>vx = 64, vy = 0\<rparr>],
      sectors =
        [\<lparr>sec_floorHeight = 0, sec_ceilingHeight = 128, floorTexture = ''FLAT1'',
          ceilingTexture = ''FLAT1'', lightLevel = 160, sec_special = 0, tag = 0\<rparr>],
      segs = [], ssectors = [], nodes = []\<rparr>"

section \<open>Sector polygons (MapRenderer.getSectorPolygon)\<close>

text \<open>
  An entry of \<open>sectorLines\<close>: a linedef, its index, and whether it is walked from its
  start vertex to its end vertex (\<open>forward\<close>, the front side faces the sector) or the
  other way round.
\<close>

record sectorLine =
  line_linedef :: linedef
  line_index :: nat
  forward :: bool

text \<open>
  The test \<open>side !== -1\<close> followed by \<open>sidedef && sidedef.sector === sectorIndex\<close> on
  \<open>sidedefs[side]\<close>.
\<close>

definition sideInSector :: "doomMap \<Rightarrow> int \<Rightarrow> nat \<Rightarrow> bool" where
  "sideInSector m side sectorIndex =
     (side \<noteq> - 1 \<and>
      (case arrayGet (sidedefs m) side of
         None \<Rightarrow> False
       | Some sd \<Rightarrow> sector sd = int sectorIndex))"

fun collectSectorLines :: "doomMap \<Rightarrow> nat \<Rightarrow> nat \<Rightarrow> linedef list \<Rightarrow> sectorLine list" where
  "collectSectorLines m sectorIndex i [] = []"
| "collectSectorLines m sectorIndex i (ld # rest) =
     (if sideInSector m (frontSidedef ld) sectorIndex
      then [\<lparr>line_linedef = ld, line_index = i, forward = True\<rparr>] else []) @
     (if sideInSector m (backSidedef ld) sectorIndex
      then [\<lparr>line_linedef = ld, line_index = i, forward = False\<rparr>] else []) @
     collectSectorLines m sectorIndex (i + 1) rest"

definition lineStartV :: "sectorLine \<Rightarrow> int" where
  "lineStartV l =
     (if forward l then startVertex (line_linedef l) else endVertex (line_linedef l))"

definition lineEndV :: "sectorLine \<Rightarrow> int" where
  "lineEndV l =
     (if forward l then endVertex (line_linedef l) else startVertex (line_linedef l))"

text \<open>
  The inner \<open>for\<close> loop of the chaining loop: the first index, from \<open>i\<close> on, of a
  line that is not used and starts at the chain's running end vertex.
\<close>

fun findNext :: "sectorLine list \<Rightarrow> nat set \<Rightarrow> int \<Rightarrow> nat \<Rightarrow> nat option" where
  "findNext [] used currentEndVertex i = None"
| "findNext (l # ls) used currentEndVertex i =
     (if i \<notin> used \<and> lineStartV l = currentEndVertex then Some i
      else findNext ls used currentEndVertex (i + 1))"

type_synonym point = "int \<times> int"

text \<open>
  The chaining loop \<open>while (used.size < sectorLines.length && iterations < maxIterations)\<close>
  with \<open>maxIterations = sectorLines.length * 2\<close>. The result is the value of \<open>points\<close>
  and of \<open>iterations\<close> when the loop is left.
\<close>

function traceLoop :: "vertex list \<Rightarrow> sectorLine list \<Rightarrow> nat set \<Rightarrow> int \<Rightarrow> nat \<Rightarrow> point list
    \<Rightarrow> point list \<times> nat" where
  "traceLoop vs sectorLines used currentEndVertex iterations points =
     (if card used < length sectorLines \<and> iterations < length sectorLines * 2 then
        (case findNext sectorLines used currentEndVertex 0 of
           None \<Rightarrow> (points, iterations + 1)
         | Some i \<Rightarrow>
             traceLoop vs sectorLines (insert i used) (lineEndV (sectorLines ! i))
               (iterations + 1)
               (case arrayGet vs (lineStartV (sectorLines ! i)) of
                  Some v \<Rightarrow> points @ [(vx v, vy v)]
                | None \<Rightarrow> points))
      else (points, iterations))"
  by pat_completeness auto
termination
  by (relation "measure (\<lambda>(vs, sectorLines, used, currentEndVertex, iterations, points).
        length sectorLines * 2 - iterations)") auto

declare traceLoop.simps [simp del]

subsection \<open>The fallback ordering (getSectorPolygonFallback)\<close>

text \<open>
  \<open>uniqueVertices\<close> is a \<open>Map\<close> keyed by the text \<open>x,y\<close> of a vertex, which for
  integer coordinates is equal exactly for equal points; its values are in insertion
  order.
\<close>

fun uniqueVertices :: "point list \<Rightarrow> point list \<Rightarrow> point list" where
  "uniqueVertices [] seen = seen"
| "uniqueVertices (p # ps) seen = uniqueVertices ps (if p \<in> set seen then seen else seen @ [p])"

definition lineVertices :: "vertex list \<Rightarrow> sectorLine \<Rightarrow> point list" where
  "lineVertices vs l =
     (case arrayGet vs (startVertex (line_linedef l)) of
        Some v1 \<Rightarrow> [(vx v1, vy v1)] | None \<Rightarrow> []) @
     (case arrayGet vs (endVertex (line_linedef l)) of
        Some v2 \<Rightarrow> [(vx v2, vy v2)] | None \<Rightarrow> [])"

text \<open>\<open>Math.atan2(y, x)\<close> on real numbers.\<close>

definition atan2 :: "real \<Rightarrow> real \<Rightarrow> real" where
  "atan2 y x =
     (if 0 < x then arctan (y / x)
      else if x < 0 then (if 0 \<le> y then arctan (y / x) + pi else arctan (y / x) - pi)
      else if 0 < y then pi / 2
      else if y < 0 then - pi / 2
      else 0)"

text \<open>
  The sort by the comparator \<open>angleA - angleB\<close> orders the points by their angle
  around the centroid and keeps the order of points of equal angle (the sort of
  \<open>Array.prototype.sort\<close> is stable), as \<open>sort_key\<close> does.
\<close>

definition getSectorPolygonFallback :: "doomMap \<Rightarrow> sectorLine list \<Rightarrow> point list" where
  "getSectorPolygonFallback m sectorLines =
     (let points = uniqueVertices (concat (map (lineVertices (vertexes m)) sectorLines)) []
      in if 2 < length points then
           let cx = foldl (\<lambda>c p. c + real_of_int (fst p)) 0 points / real (length points);
               cy = foldl (\<lambda>c p. c + real_of_int (snd p)) 0 points / real (length points)
           in sort_key (\<lambda>p. atan2 (real_of_int (snd p) - cy) (real_of_int (fst p) - cx)) points
         else points)"

definition getSectorPolygon :: "doomMap \<Rightarrow> nat \<Rightarrow> point list" where
  "getSectorPolygon m sectorIndex =
     (let sectorLines = collectSectorLines m sectorIndex 0 (linedefs m)
      in if sectorLines = [] then []
         else
           let currentLine = sectorLines ! 0
           in case arrayGet (vertexes m) (lineStartV currentLine) of
                None \<Rightarrow> []
              | Some startV \<Rightarrow>
                  let points = fst (traceLoop (vertexes m) sectorLines {0}
                                      (lineEndV currentLine) 0 [(vx startV, vy startV)])
                  in if length points < 3 then getSectorPolygonFallback m sectorLines
                     else points)"

subsection \<open>Floor regions (MapRenderer.buildFloorsAndCeilings)\<close>

text \<open>
  The entries of \<open>floorSectors\<close>. The simulation computes with them in JavaScript
  numbers, so the integer coordinates and heights of the map are stored as reals.
  The meshes that \<open>buildFloorsAndCeilings\<close> adds to the scene are left out.
\<close>

record floorSector =
  fs_sectorIndex :: nat
  polygon :: "(real \<times> real) list"
  fs_floorHeight :: real
  fs_ceilingHeight :: real

fun buildFloors_loop :: "doomMap \<Rightarrow> nat \<Rightarrow> sector list \<Rightarrow> floorSector list" where
  "buildFloors_loop m i [] = []"
| "buildFloors_loop m i (sec # rest) =
     (let poly = getSectorPolygon m i
      in if length poly < 3 then []
         else [\<lparr>fs_sectorIndex = i,
                 polygon = map (\<lambda>p. (real_of_int (fst p), real_of_int (snd p))) poly,
                 fs_floorHeight = real_of_int (sec_floorHeight sec),
                 fs_ceilingHeight = real_of_int (sec_ceilingHeight sec)\<rparr>]) @
     buildFloors_loop m (i + 1) rest"

definition buildFloorsAndCeilings :: "doomMap \<Rightarrow> floorSector list" where
  "buildFloorsAndCeilings m = buildFloors_loop m 0 (sectors m)"

subsection \<open>Example: a square room\<close>

text \<open>
  One sector bounded by four one-sided linedefs around the square with corners
  (0, 0), (100, 0), (100, 100) and (0, 100), listed out of order.
\<close>

definition square_map :: doomMap where
  "square_map =
     \<lparr>map_name = ''E1M1'', things = [],
      linedefs =
        [\<lparr>startVertex = 0, endVertex = 1, flags = 1, lineType = 0, sectorTag = 0,
          frontSidedef = 0, backSidedef = - 1\<rparr>,
         \<lparr>startVertex = 2, endVertex = 3, flags = 1, lineType = 0, sectorTag = 0,
          frontSidedef = 0, backSidedef = - 1\<rparr>,
         \<lparr>startVertex = 1, endVertex = 2, flags = 1, lineType = 0, sectorTag = 0,
          frontSidedef = 0, backSidedef = - 1\<rparr>,
         \<lparr>startVertex = 3, endVertex = 0, flags = 1, lineType = 0, sectorTag = 0,
          frontSidedef = 0, backSidedef = - 1\<rparr>],
      sidedefs =
        [\<lparr>xOffset = 0, yOffset = 0, upperTexture = ''-'', lowerTexture = ''-'',
          middleTexture = ''WALL'', sector = 0\<rparr>],
      vertexes = [\<lparr>vx = 0, vy = 0\<rparr>, \<lparr>vx = 100, vy = 0\<rparr>, \<lparr>vx = 100, vy = 100\<rparr>,
                  \<lparr>vx = 0, vy = 100\<rparr>],
      sectors =
        [\<lparr>sec_floorHeight = 0, sec_ceilingHeight = 128, floorTexture = ''FLAT1'',
          ceilingTexture = ''FLAT1'', lightLevel = 160, sec_special = 0, tag = 0\<rparr>],
      segs = [], ssectors = [], nodes = []\<rparr>"

section \<open>The simulation (Game)\<close>

text \<open>
  The numbers of the simulation are JavaScript numbers. Positions, heights and
  polygon points are finite numbers and are modelled as real numbers. Where the code
  computes a distance, the results \<open>Infinity\<close>, \<open>-Infinity\<close> and \<open>NaN\<close> of its
  arithmetic are modelled as well.
\<close>

subsection \<open>Numbers with overflow\<close>

datatype jsNumber = Finite real | PosInfinity | NegInfinity | NaN

text \<open>
  A result whose magnitude reaches \<open>2 ^ 1024 - 2 ^ 970\<close>, half a unit in the last
  place above the largest double, overflows to an infinity. The rounding of the results that
  stay finite is not modelled.
\<close>

definition double_limit :: real where
  "double_limit = 2 ^ 1024 - 2 ^ 970"

definition toNumber :: "real \<Rightarrow> jsNumber" where
  "toNumber r =
     (if double_limit \<le> r then PosInfinity
      else if r \<le> - double_limit then NegInfinity
      else Finite r)"

text \<open>\<open>a + b\<close>, \<open>-a\<close> and \<open>a - b\<close>.\<close>

fun numAdd :: "jsNumber \<Rightarrow> jsNumber \<Rightarrow> jsNumber" where
  "numAdd NaN b = NaN"
| "numAdd a NaN = NaN"
| "numAdd PosInfinity NegInfinity = NaN"
| "numAdd NegInfinity PosInfinity = NaN"
| "numAdd PosInfinity b = PosInfinity"
| "numAdd a PosInfinity = PosInfinity"
| "numAdd NegInfinity b = NegInfinity"
| "numAdd a NegInfinity = NegInfinity"
| "numAdd (Finite a) (Finite b) = toNumber (a + b)"

fun numNeg :: "jsNumber \<Rightarrow> jsNumber" where
  "numNeg (Finite a) = Finite (- a)"
| "numNeg PosInfinity = NegInfinity"
| "numNeg NegInfinity = PosInfinity"
| "numNeg NaN = NaN"

definition numSub :: "jsNumber \<Rightarrow> jsNumber \<Rightarrow> jsNumber" where
  "numSub a b = numAdd a (numNeg b)"

text \<open>\<open>a ** 2\<close>.\<close>

fun numSquare :: "jsNumber \<Rightarrow> jsNumber" where
  "numSquare (Finite a) = toNumber (a * a)"
| "numSquare PosInfinity = PosInfinity"
| "numSquare NegInfinity = PosInfinity"
| "numSquare NaN = NaN"

text \<open>
  \<open>a / n\<close> for the length \<open>n\<close> of an array: 0 divided by 0 is \<open>NaN\<close>, and another
  number divided by 0 is an infinity of its sign.
\<close>

fun numDivLength :: "jsNumber \<Rightarrow> nat \<Rightarrow> jsNumber" where
  "numDivLength (Finite a) n =
     (if n = 0 then (if a = 0 then NaN else if 0 < a then PosInfinity else NegInfinity)
      else toNumber (a / real n))"
| "numDivLength PosInfinity n = PosInfinity"
| "numDivLength NegInfinity n = NegInfinity"
| "numDivLength NaN n = NaN"

text \<open>\<open>Math.sqrt(a)\<close>.\<close>

fun numSqrt :: "jsNumber \<Rightarrow> jsNumber" where
  "numSqrt (Finite a) = (if a < 0 then NaN else Finite (sqrt a))"
| "numSqrt PosInfinity = PosInfinity"
| "numSqrt NegInfinity = NaN"
| "numSqrt NaN = NaN"

text \<open>\<open>a < b\<close>: false when either side is \<open>NaN\<close>, and \<open>Infinity < Infinity\<close> is false.\<close>

fun numLess :: "jsNumber \<Rightarrow> jsNumber \<Rightarrow> bool" where
  "numLess (Finite a) (Finite b) = (a < b)"
| "numLess (Finite a) PosInfinity = True"
| "numLess NegInfinity (Finite b) = True"
| "numLess NegInfinity PosInfinity = True"
| "numLess a b = False"


subsection \<open>Point location (Game.pointInPolygon, Game.getCurrentSector)\<close>

text \<open>
  The loop \<open>for (i = 0, j = polygon.length - 1; i < polygon.length; j = i++)\<close>: the
  first pair is the first point with the last one, and every later pair is a point
  with its predecessor. The division is evaluated only when \<open>yi\<close> and \<open>yj\<close> differ.
\<close>

fun pointInPolygon_loop :: "real \<Rightarrow> real \<Rightarrow> real \<times> real \<Rightarrow> (real \<times> real) list \<Rightarrow> bool \<Rightarrow> bool" where
  "pointInPolygon_loop x y ptj [] inside = inside"
| "pointInPolygon_loop x y ptj (pti # rest) inside =
     (let xi = fst pti; yi = snd pti; xj = fst ptj; yj = snd ptj;
          intersect = (((y < yi) \<noteq> (y < yj)) \<and> x < (xj - xi) * (y - yi) / (yj - yi) + xi)
      in pointInPolygon_loop x y pti rest (if intersect then \<not> inside else inside))"

definition pointInPolygon :: "real \<Rightarrow> real \<Rightarrow> (real \<times> real) list \<Rightarrow> bool" where
  "pointInPolygon x y poly =
     (if poly = [] then False else pointInPolygon_loop x y (last poly) poly False)"

text \<open>The object \<open>{floorHeight, ceilingHeight, sectorIndex}\<close> that a query returns.\<close>

record sectorInfo =
  floorHeight :: real
  ceilingHeight :: real
  sectorIndex :: nat

definition sectorInfoOf :: "floorSector \<Rightarrow> sectorInfo" where
  "sectorInfoOf fs =
     \<lparr>floorHeight = fs_floorHeight fs, ceilingHeight = fs_ceilingHeight fs,
      sectorIndex = fs_sectorIndex fs\<rparr>"

text \<open>
  The distance from the query point to the mean of the polygon's points, as the
  fallback loop computes it: \<open>cx\<close> and \<open>cy\<close> start at 0 and every point is added, both
  are divided by the number of points, and the distance is
  \<open>Math.sqrt((x - cx) ** 2 + (y - cy) ** 2)\<close>. For a polygon without points the code
  divides 0 by 0 and the distance is \<open>NaN\<close>; far from the polygon the squares overflow
  and the distance is \<open>Infinity\<close>.
\<close>

definition centroidDistance :: "real \<Rightarrow> real \<Rightarrow> (real \<times> real) list \<Rightarrow> jsNumber" where
  "centroidDistance x y poly =
     (let cx = numDivLength (foldl (\<lambda>c p. numAdd c (Finite (fst p))) (Finite 0) poly)
                 (length poly);
          cy = numDivLength (foldl (\<lambda>c p. numAdd c (Finite (snd p))) (Finite 0) poly)
                 (length poly)
      in numSqrt (numAdd (numSquare (numSub (Finite x) cx)) (numSquare (numSub (Finite y) cy))))"

text \<open>
  The fallback loop. Its state is the pair of \<open>minDist\<close> and \<open>nearestSector\<close>, which
  start as \<open>Infinity\<close> and \<open>null\<close>; a region replaces them when \<open>dist < minDist\<close>.
\<close>

fun nearest_loop :: "real \<Rightarrow> real \<Rightarrow> floorSector list \<Rightarrow> jsNumber \<times> sectorInfo option
    \<Rightarrow> jsNumber \<times> sectorInfo option" where
  "nearest_loop x y [] best = best"
| "nearest_loop x y (fs # rest) best =
     nearest_loop x y rest
       (let distance = centroidDistance x y (polygon fs)
        in if numLess distance (fst best) then (distance, Some (sectorInfoOf fs)) else best)"

definition getCurrentSectorAt :: "floorSector list \<Rightarrow> real \<Rightarrow> real \<Rightarrow> sectorInfo option" where
  "getCurrentSectorAt fss x y =
     (case find (\<lambda>fs. pointInPolygon x y (polygon fs)) fss of
        Some fs \<Rightarrow> Some (sectorInfoOf fs)
      | None \<Rightarrow> snd (nearest_loop x y fss (PosInfinity, None)))"

subsection \<open>The player and the game state\<close>

text \<open>
  Of \<open>this.player\<close>, the position, the vertical velocity and the grounded flag change;
  \<open>height\<close> (41) and \<open>radius\<close> (16) are set by the constructor and never assigned.
\<close>

record playerState =
  pos_x :: real
  pos_y :: real
  pos_z :: real
  verticalVelocity :: real
  onGround :: bool

definition player_height :: real where
  "player_height = 41"

definition player_radius :: real where
  "player_radius = 16"

record game =
  mapData :: "doomMap option"
  collisionLines :: "collisionLine list"
  floorSectors :: "floorSector list"
  player :: playerState

definition getCurrentSector :: "game \<Rightarrow> sectorInfo option" where
  "getCurrentSector g =
     getCurrentSectorAt (floorSectors g) (pos_x (player g)) (- pos_z (player g))"

definition findNearestSector :: "game \<Rightarrow> sectorInfo option" where
  "findNearestSector g = getCurrentSector g"

subsection \<open>Vertical placement (Game.updatePlayerHeight)\<close>

definition updatePlayerHeight :: "game \<Rightarrow> game" where
  "updatePlayerHeight g =
     (let p = player g in
      if mapData g = None then g
      else
        case getCurrentSector g of
          None \<Rightarrow>
            (case findNearestSector g of
               None \<Rightarrow> g
             | Some nearestSector \<Rightarrow>
                 let minY = floorHeight nearestSector + player_height
                 in if pos_y p < minY then g\<lparr>player := p\<lparr>pos_y := minY, onGround := True\<rparr>\<rparr>
                    else g)
        | Some sec \<Rightarrow>
            let maxStepHeight = 24;
                currentFloorHeight = pos_y p - player_height;
                heightDiff = floorHeight sec - currentFloorHeight;
                minHeadRoom = 56
            in if ceilingHeight sec - floorHeight sec < minHeadRoom then g
               else
                 let p1 =
                       (if \<bar>heightDiff\<bar> \<le> maxStepHeight then
                          let targetY = floorHeight sec + player_height
                          in if targetY \<le> ceilingHeight sec
                             then p\<lparr>pos_y := targetY, onGround := True, verticalVelocity := 0\<rparr>
                             else p
                        else if heightDiff < 0 then p\<lparr>onGround := False\<rparr>
                        else p);
                     minY = floorHeight sec + player_height;
                     p2 = (if pos_y p1 < minY
                           then p1\<lparr>pos_y := minY, verticalVelocity := 0, onGround := True\<rparr>
                           else p1)
                 in g\<lparr>player := p2\<rparr>)"

subsection \<open>Horizontal movement (Game.circleLineCollision, checkCollision, movePlayer)\<close>

definition circleLineCollision :: "real \<Rightarrow> real \<Rightarrow> real \<Rightarrow> real \<Rightarrow> real \<Rightarrow> real \<Rightarrow> real \<Rightarrow> bool" where
  "circleLineCollision cx cy radius x1 y1 x2 y2 =
     (let dx = x2 - x1; dy = y2 - y1; length2 = dx * dx + dy * dy
      in if length2 = 0 then (cx - x1) * (cx - x1) + (cy - y1) * (cy - y1) < radius * radius
         else
           let t = max 0 (min 1 (((cx - x1) * dx + (cy - y1) * dy) / length2));
               closestX = x1 + t * dx;
               closestY = y1 + t * dy
           in (cx - closestX) * (cx - closestX) + (cy - closestY) * (cy - closestY)
                < radius * radius)"

text \<open>\<open>checkCollision(position)\<close> reads \<open>position.x\<close> and \<open>position.z\<close> only.\<close>

definition checkCollision :: "game \<Rightarrow> real \<times> real \<times> real \<Rightarrow> bool" where
  "checkCollision g position =
     (case position of (px, py, pz) \<Rightarrow>
        list_ex (\<lambda>l. circleLineCollision px (- pz) player_radius
                   (real_of_int (lx1 l)) (real_of_int (ly1 l))
                   (real_of_int (lx2 l)) (real_of_int (ly2 l)))
          (collisionLines g))"

definition position :: "playerState \<Rightarrow> real \<times> real \<times> real" where
  "position p = (pos_x p, pos_y p, pos_z p)"

definition copyPosition :: "playerState \<Rightarrow> real \<times> real \<times> real \<Rightarrow> playerState" where
  "copyPosition p v = (case v of (vx', vy', vz') \<Rightarrow> p\<lparr>pos_x := vx', pos_y := vy', pos_z := vz'\<rparr>)"

text \<open>
  \<open>movePlayer\<close>: \<open>xOnly\<close> is a clone of the position before the move, \<open>zOnly\<close> a clone
  of \<open>this.player.position\<close> at the time it is made, after the X retry may have
  moved the player.
\<close>

definition movePlayer :: "game \<Rightarrow> real \<times> real \<times> real \<Rightarrow> game" where
  "movePlayer g moveVector =
     (case moveVector of (mx, my, mz) \<Rightarrow>
        let p = player g;
            newPosition = (pos_x p + mx, pos_y p + my, pos_z p + mz);
            p' =
              (if \<not> checkCollision g newPosition then copyPosition p newPosition
               else
                 let xOnly = (pos_x p + mx, pos_y p, pos_z p);
                     p1 = (if \<not> checkCollision g xOnly then copyPosition p xOnly else p);
                     zOnly = (pos_x p1, pos_y p1, pos_z p1 + mz);
                     p2 = (if \<not> checkCollision g zOnly then copyPosition p1 zOnly else p1)
                 in p2)
        in updatePlayerHeight (g\<lparr>player := p'\<rparr>))"

subsection \<open>Example states\<close>

text \<open>The square region with corners (0, 0), (100, 0), (100, 100), (0, 100).\<close>

definition square_region :: "real \<Rightarrow> real \<Rightarrow> floorSector" where
  "square_region fl ceil =
     \<lparr>fs_sectorIndex = 0, polygon = [(0, 0), (100, 0), (100, 100), (0, 100)],
      fs_floorHeight = fl, fs_ceilingHeight = ceil\<rparr>"

text \<open>
  A player standing at the point (50, 50) of the map (\<open>z\<close> is \<open>-y\<close>) with the eyes at
  height 41, that is on a supporting height of 0, in a game whose only region is the
  square with the given floor and ceiling.
\<close>

definition step_game :: "real \<Rightarrow> real \<Rightarrow> game" where
  "step_game fl ceil =
     \<lparr>mapData = Some square_map, collisionLines = [],
      floorSectors = [square_region fl ceil],
      player = \<lparr>pos_x = 50, pos_y = 41, pos_z = - 50, verticalVelocity = - 8, onGround = True\<rparr>\<rparr>"

text \<open>
  A player at the origin next to the end (20, 20) of a wall that runs on to (30, 30),
  inside a large square region with floor 0.
\<close>

definition corner_game :: game where
  "corner_game =
     \<lparr>mapData = Some square_map,
      collisionLines =
        [\<lparr>lx1 = 20, ly1 = 20, lx2 = 30, ly2 = 30, isDoor = False, special = None,
          linedefIndex = None\<rparr>],
      floorSectors =
        [\<lparr>fs_sectorIndex = 0, polygon = [(- 200, - 200), (200, - 200), (200, 200), (- 200, 200)],
          fs_floorHeight = 0, fs_ceilingHeight = 128\<rparr>],
      player = \<lparr>pos_x = 0, pos_y = 41, pos_z = 0, verticalVelocity = 0, onGround = True\<rparr>\<rparr>"





subsection \<open>The notions of the point-location claim\<close>





subsection \<open>The state of the fallback loop\<close>



section \<open>Patches (WADParser.getPatch, renderPatch)\<close>

record patch =
  width :: int
  height :: int
  leftOffset :: int
  topOffset :: int
  columnOffsets :: "int list"
  data :: "byte list"

text \<open>The loop of \<open>getPatch\<close> that reads the column offsets, run \<open>n\<close> more times.\<close>

fun getPatch_loop :: "byte list \<Rightarrow> nat \<Rightarrow> int \<Rightarrow> int list \<Rightarrow> error + int list" where
  "getPatch_loop view 0 i offs = Inr offs"
| "getPatch_loop view (Suc n) i offs =
     bindE (getInt32 view (8 + i * 4)) (\<lambda>off. getPatch_loop view n (i + 1) (offs @ [off]))"

definition getPatch :: "wad \<Rightarrow> string \<Rightarrow> error + patch option" where
  "getPatch w nm =
     (case getLump w nm of
        None \<Rightarrow> Inr None
      | Some l \<Rightarrow>
          bindE (newDataView (buffer w) (offset l) (lsize l)) (\<lambda>view.
          bindE (getInt16 view 0) (\<lambda>wd.
          bindE (getInt16 view 2) (\<lambda>ht.
          bindE (getInt16 view 4) (\<lambda>lo.
          bindE (getInt16 view 6) (\<lambda>to.
          bindE (getPatch_loop view (nat wd) 0 []) (\<lambda>offs.
          bindE (newUint8Array (buffer w) (offset l) (lsize l)) (\<lambda>d.
            Inr (Some \<lparr>width = wd, height = ht, leftOffset = lo, topOffset = to,
                        columnOffsets = offs, data = d\<rparr>)))))))))"

text \<open>
  The pixel buffer is a \<open>Uint8Array\<close>: a store converts the number to a byte, and a
  store outside the array does nothing. \<open>writePixel\<close> is the four stores at
  \<open>pixelOffset\<close> to \<open>pixelOffset + 3\<close>.
\<close>

definition writePixel :: "byte list \<Rightarrow> int \<Rightarrow> nat \<times> nat \<times> nat \<Rightarrow> byte list" where
  "writePixel pixels pixelOffset color =
     (case color of (r, g, b) \<Rightarrow>
        if pixelOffset < 0 then pixels
        else pixels[nat pixelOffset := of_nat r, nat pixelOffset + 1 := of_nat g,
                    nat pixelOffset + 2 := of_nat b, nat pixelOffset + 3 := 255])"

text \<open>
  The loop \<open>for (i = 0; i < pixelCount; i++)\<close> over the bytes of one run, \<open>n\<close> more
  times from \<open>i\<close>; \<open>offset\<close> is the position of the run's first index byte. Reading
  \<open>color[0]\<close> of a palette entry that does not exist throws TypeError.
\<close>

fun renderRun :: "byte list \<Rightarrow> palette \<Rightarrow> int \<Rightarrow> int \<Rightarrow> nat \<Rightarrow> nat \<Rightarrow> int \<Rightarrow> nat \<Rightarrow> nat
    \<Rightarrow> byte list \<Rightarrow> error + byte list" where
  "renderRun view pal w h x rowStart offs 0 i pixels = Inr pixels"
| "renderRun view pal w h x rowStart offs (Suc n) i pixels =
     bindE (getUint8 view (offs + int i)) (\<lambda>paletteIndex.
       let y = rowStart + i in
       if int y < h then
         (let pixelOffset = (int y * w + int x) * 4 in
          case arrayGet pal (int paletteIndex) of
            None \<Rightarrow> Inl TypeError
          | Some color \<Rightarrow>
              renderRun view pal w h x rowStart offs n (i + 1) (writePixel pixels pixelOffset color))
       else renderRun view pal w h x rowStart offs n (i + 1) pixels)"

text \<open>
  The loop \<open>while (true)\<close> over the runs of column \<open>x\<close>, from \<open>offset\<close>. A read outside
  the lump throws, and every pass moves \<open>offset\<close> forward by at least 4, so the loop
  ends: with the sentinel 255 or with RangeError.
\<close>

function renderColumn :: "byte list \<Rightarrow> palette \<Rightarrow> int \<Rightarrow> int \<Rightarrow> nat \<Rightarrow> int \<Rightarrow> byte list
    \<Rightarrow> error + byte list" where
  "renderColumn view pal w h x offs pixels =
     bindE (getUint8 view offs) (\<lambda>rowStart.
       if rowStart = 255 then Inr pixels
       else
         bindE (getUint8 view (offs + 1)) (\<lambda>pixelCount.
         bindE (renderRun view pal w h x rowStart (offs + 3) pixelCount 0 pixels) (\<lambda>pixels'.
           renderColumn view pal w h x (offs + 3 + (int pixelCount + 1)) pixels')))"
  by pat_completeness auto
termination
  by (relation "measure (\<lambda>(view, pal, w, h, x, offs, pixels). nat (int (length view) - offs))")
    (auto simp: getUint8_def split: if_splits)

declare renderColumn.simps [simp del]

text \<open>
  The loop \<open>for (x = 0; x < patch.width; x++)\<close>, as the traversal of the column
  offsets from column \<open>x\<close> on: \<open>getPatch\<close> builds a patch with exactly \<open>width\<close> column
  offsets (none when \<open>width\<close> is not positive).
\<close>

fun renderColumns :: "byte list \<Rightarrow> palette \<Rightarrow> int \<Rightarrow> int \<Rightarrow> nat \<Rightarrow> int list \<Rightarrow> byte list
    \<Rightarrow> error + byte list" where
  "renderColumns view pal w h x [] pixels = Inr pixels"
| "renderColumns view pal w h x (columnOffset # rest) pixels =
     bindE (renderColumn view pal w h x columnOffset pixels) (\<lambda>pixels'.
       renderColumns view pal w h (x + 1) rest pixels')"

record picture =
  pic_width :: int
  pic_height :: int
  pixels :: "byte list"

text \<open>
  \<open>renderPatch\<close> on a patch that is not \<open>null\<close>. \<open>new Uint8Array(n)\<close> throws RangeError
  for a negative \<open>n\<close> and is filled with zeros.
\<close>

definition renderPatch :: "patch \<Rightarrow> palette \<Rightarrow> error + picture" where
  "renderPatch p pal =
     (if width p * height p * 4 < 0 then Inl RangeError
      else
        bindE (renderColumns (data p) pal (width p) (height p) 0 (columnOffsets p)
                 (replicate (nat (width p * height p * 4)) 0)) (\<lambda>px.
          Inr \<lparr>pic_width = width p, pic_height = height p, pixels = px\<rparr>))"

subsection \<open>The notions of the patch claim\<close>

text \<open>
  The runs of a column, read from the lump as the format lays them out: a row start,
  a pixel count, a padding byte, the palette indices and a padding byte, up to the
  sentinel row start 255. A run is its row start and its indices.
\<close>

fun runIndices :: "byte list \<Rightarrow> int \<Rightarrow> nat \<Rightarrow> error + nat list" where
  "runIndices view offs 0 = Inr []"
| "runIndices view offs (Suc n) =
     bindE (getUint8 view offs) (\<lambda>c.
     bindE (runIndices view (offs + 1) n) (\<lambda>cs. Inr (c # cs)))"

function columnRuns :: "byte list \<Rightarrow> int \<Rightarrow> error + (nat \<times> nat list) list" where
  "columnRuns view offs =
     bindE (getUint8 view offs) (\<lambda>rowStart.
       if rowStart = 255 then Inr []
       else
         bindE (getUint8 view (offs + 1)) (\<lambda>pixelCount.
         bindE (runIndices view (offs + 3) pixelCount) (\<lambda>cs.
         bindE (columnRuns view (offs + 3 + (int pixelCount + 1))) (\<lambda>runs.
           Inr ((rowStart, cs) # runs)))))"
  by pat_completeness auto
termination
  by (relation "measure (\<lambda>(view, offs). nat (int (length view) - offs))")
    (auto simp: getUint8_def split: if_splits)

declare columnRuns.simps [simp del]

text \<open>
  The palette index that the runs, drawn in their order, leave at row \<open>y\<close>: that of
  the last run that covers the row, and none when no run covers it.
\<close>

fun indexAt :: "(nat \<times> nat list) list \<Rightarrow> nat \<Rightarrow> nat option" where
  "indexAt [] y = None"
| "indexAt ((rowStart, cs) # runs) y =
     (case indexAt runs y of
        Some c \<Rightarrow> Some c
      | None \<Rightarrow> if rowStart \<le> y \<and> y < rowStart + length cs then Some (cs ! (y - rowStart)) else None)"

text \<open>The four bytes of the pixel in column \<open>x\<close> and row \<open>y\<close> of a buffer of width \<open>w\<close>.\<close>

definition pixelAt :: "nat \<Rightarrow> byte list \<Rightarrow> nat \<Rightarrow> nat \<Rightarrow> byte \<times> byte \<times> byte \<times> byte" where
  "pixelAt w px x y =
     (px ! ((y * w + x) * 4), px ! ((y * w + x) * 4 + 1), px ! ((y * w + x) * 4 + 2),
      px ! ((y * w + x) * 4 + 3))"

text \<open>The opaque pixel of a palette colour.\<close>

definition opaque :: "nat \<times> nat \<times> nat \<Rightarrow> byte \<times> byte \<times> byte \<times> byte" where
  "opaque color = (case color of (r, g, b) \<Rightarrow> (of_nat r, of_nat g, of_nat b, 255))"

subsection \<open>Example patches\<close>

text \<open>
  Patches of width 1 whose column, at offset 12 of the lump, holds one run of 3 pixels
  from row 1 with the palette indices 5, 6 and 7: \<open>post_patch\<close> of height 5, which the
  run fits, and \<open>clipped_patch\<close> of height 3, which the run's last row exceeds.
  \<open>open_patch\<close> is the patch of height 5 without the sentinel that ends the column.
\<close>

definition post_data :: "byte list" where
  "post_data = [1, 0, 5, 0, 0, 0, 0, 0,  12, 0, 0, 0,  1, 3, 0, 5, 6, 7, 0, 255]"

definition post_patch :: patch where
  "post_patch =
     \<lparr>width = 1, height = 5, leftOffset = 0, topOffset = 0, columnOffsets = [12],
      data = post_data\<rparr>"

definition clipped_patch :: patch where
  "clipped_patch =
     \<lparr>width = 1, height = 3, leftOffset = 0, topOffset = 0, columnOffsets = [12],
      data = [1, 0, 3, 0, 0, 0, 0, 0,  12, 0, 0, 0,  1, 3, 0, 5, 6, 7, 0, 255]\<rparr>"

definition open_patch :: patch where
  "open_patch =
     \<lparr>width = 1, height = 5, leftOffset = 0, topOffset = 0, columnOffsets = [12],
      data = [1, 0, 5, 0, 0, 0, 0, 0,  12, 0, 0, 0,  1, 3, 0, 5, 6, 7, 0]\<rparr>"

text \<open>
  The palette index left at row \<open>y\<close> by the runs of the column at \<open>offs\<close>, and the
  rows of column \<open>x\<close> of a buffer whose alpha byte is 255.
\<close>

definition columnIndexAt :: "byte list \<Rightarrow> int \<Rightarrow> nat \<Rightarrow> nat option" where
  "columnIndexAt view offs y =
     (case columnRuns view offs of Inl e \<Rightarrow> None | Inr runs \<Rightarrow> indexAt runs y)"

definition opaqueRows :: "nat \<Rightarrow> nat \<Rightarrow> byte list \<Rightarrow> nat \<Rightarrow> nat list" where
  "opaqueRows W H px x = filter (\<lambda>y. px ! ((y * W + x) * 4 + 3) = 255) [0..<H]"

section \<open>The directory loop\<close>

lemma parse_loop_map:
  "parse_loop view n pos ls m = Inr (ls', m') \<Longrightarrow>
   map_of m nm = lastNamed ls nm \<Longrightarrow>
   map_of m' nm = lastNamed ls' nm"
proof (induction n arbitrary: pos ls m)
  case 0
  then show ?case by simp
next
  case (Suc n)
  from Suc.prems(1) obtain lo sz s where
    rec: "parse_loop view n (pos + 16)
            (ls @ [\<lparr>name = trim s, offset = lo, lsize = sz\<rparr>])
            (AList.update (trim s) \<lparr>name = trim s, offset = lo, lsize = sz\<rparr> m) = Inr (ls', m')"
    by (auto simp: bindE_Inr_iff Let_def)
  show ?case
  proof (rule Suc.IH [OF rec])
    show "map_of (AList.update (trim s) \<lparr>name = trim s, offset = lo, lsize = sz\<rparr> m) nm =
          lastNamed (ls @ [\<lparr>name = trim s, offset = lo, lsize = sz\<rparr>]) nm"
      using Suc.prems(2) by (simp add: lastNamed_def update_conv')
  qed
qed

lemma parse_loop_entries:
  "parse_loop view n pos ls m = Inr (ls', m') \<Longrightarrow>
   \<exists>new. ls' = ls @ new \<and> length new = n \<and>
     (\<forall>i<n. getInt32 view (pos + 16 * int i) = Inr (offset (new ! i)) \<and>
            getInt32 view (pos + 16 * int i + 4) = Inr (lsize (new ! i)))"
proof (induction n arbitrary: pos ls m)
  case 0
  then show ?case by simp
next
  case (Suc n)
  from Suc.prems obtain lo sz s where
    lo: "getInt32 view pos = Inr lo" and sz: "getInt32 view (pos + 4) = Inr sz" and
    rec: "parse_loop view n (pos + 16)
            (ls @ [\<lparr>name = trim s, offset = lo, lsize = sz\<rparr>])
            (AList.update (trim s) \<lparr>name = trim s, offset = lo, lsize = sz\<rparr> m) = Inr (ls', m')"
    by (auto simp: bindE_Inr_iff Let_def)
  define l where "l = \<lparr>name = trim s, offset = lo, lsize = sz\<rparr>"
  from Suc.IH [OF rec] obtain new where
    new: "ls' = (ls @ [l]) @ new" "length new = n" and
    rd: "\<And>i. i < n \<Longrightarrow> getInt32 view (pos + 16 + 16 * int i) = Inr (offset (new ! i)) \<and>
            getInt32 view (pos + 16 + 16 * int i + 4) = Inr (lsize (new ! i))"
    unfolding l_def by blast
  have "\<forall>i<Suc n. getInt32 view (pos + 16 * int i) = Inr (offset ((l # new) ! i)) \<and>
            getInt32 view (pos + 16 * int i + 4) = Inr (lsize ((l # new) ! i))"
  proof (intro allI impI)
    fix i assume i: "i < Suc n"
    show "getInt32 view (pos + 16 * int i) = Inr (offset ((l # new) ! i)) \<and>
            getInt32 view (pos + 16 * int i + 4) = Inr (lsize ((l # new) ! i))"
    proof (cases i)
      case 0
      then show ?thesis using lo sz by (simp add: l_def)
    next
      case (Suc j)
      with i have "j < n" by simp
      from rd [OF this] show ?thesis using Suc by (simp add: algebra_simps)
    qed
  qed
  with new show ?case by (intro exI [of _ "l # new"]) simp
qed

lemma parse_dup_wad:
  "parse dup_wad =
     Inr \<lparr>buffer = dup_wad,
          lumps = [\<lparr>name = ''A'', offset = 0, lsize = 0\<rparr>, \<lparr>name = ''A'', offset = 1, lsize = 0\<rparr>],
          lumpMap = [(''A'', \<lparr>name = ''A'', offset = 1, lsize = 0\<rparr>)]\<rparr>"
  by code_simp

lemma parse_oob_wad:
  "parse oob_wad =
     Inr \<lparr>buffer = oob_wad,
          lumps = [\<lparr>name = ''A'', offset = 1000, lsize = 50\<rparr>],
          lumpMap = [(''A'', \<lparr>name = ''A'', offset = 1000, lsize = 50\<rparr>)]\<rparr>"
  by code_simp

section \<open>Claim C2: lookup by name on duplicate names\<close>

text \<open>
  C2 (as amended). For every container the parser accepts, \<open>getLump\<close> returns the last
  directory entry bearing the name, \<open>Map.set\<close> having overwritten each earlier one;
  an earlier entry with the same name is reachable only by scanning the directory.
\<close>

theorem getLump_last:
  "parse buf = Inr w \<Longrightarrow> getLump w nm = lastNamed (lumps w) nm"
proof -
  assume "parse buf = Inr w"
  then obtain n d ls m where
    loop: "parse_loop buf n d [] [] = Inr (ls, m)" and
    w: "w = \<lparr>buffer = buf, lumps = ls, lumpMap = m\<rparr>"
    by (auto simp: parse_def bindE_Inr_iff split: if_splits)
  have "map_of m nm = lastNamed ls nm"
    by (rule parse_loop_map [OF loop]) (simp add: lastNamed_def)
  then show ?thesis by (simp add: getLump_def w)
qed

text \<open>The theorem at \<open>dup_wad\<close>: the lookup of \<open>A\<close> is the second entry.\<close>

theorem getLump_last_witness:
  "parse dup_wad =
     Inr \<lparr>buffer = dup_wad,
          lumps = [\<lparr>name = ''A'', offset = 0, lsize = 0\<rparr>, \<lparr>name = ''A'', offset = 1, lsize = 0\<rparr>],
          lumpMap = [(''A'', \<lparr>name = ''A'', offset = 1, lsize = 0\<rparr>)]\<rparr>
   \<and> getLump \<lparr>buffer = dup_wad,
          lumps = [\<lparr>name = ''A'', offset = 0, lsize = 0\<rparr>, \<lparr>name = ''A'', offset = 1, lsize = 0\<rparr>],
          lumpMap = [(''A'', \<lparr>name = ''A'', offset = 1, lsize = 0\<rparr>)]\<rparr> ''A''
     = lastNamed [\<lparr>name = ''A'', offset = 0, lsize = 0\<rparr>, \<lparr>name = ''A'', offset = 1, lsize = 0\<rparr>] ''A''
   \<and> lastNamed [\<lparr>name = ''A'', offset = 0, lsize = 0\<rparr>, \<lparr>name = ''A'', offset = 1, lsize = 0\<rparr>] ''A''
     = Some \<lparr>name = ''A'', offset = 1, lsize = 0\<rparr>"
  using getLump_last [OF parse_dup_wad, of "''A''"] parse_dup_wad
  by (simp add: lastNamed_def)

text \<open>
  The claim as stated fails at \<open>dup_wad\<close>: the lookup of \<open>A\<close> returns the entry at
  payload offset 1, while the first directory entry named \<open>A\<close> is the one at offset 0.
\<close>

theorem getLump_first_counterexample:
  "parse dup_wad =
     Inr \<lparr>buffer = dup_wad,
          lumps = [\<lparr>name = ''A'', offset = 0, lsize = 0\<rparr>, \<lparr>name = ''A'', offset = 1, lsize = 0\<rparr>],
          lumpMap = [(''A'', \<lparr>name = ''A'', offset = 1, lsize = 0\<rparr>)]\<rparr>
   \<and> getLump \<lparr>buffer = dup_wad,
          lumps = [\<lparr>name = ''A'', offset = 0, lsize = 0\<rparr>, \<lparr>name = ''A'', offset = 1, lsize = 0\<rparr>],
          lumpMap = [(''A'', \<lparr>name = ''A'', offset = 1, lsize = 0\<rparr>)]\<rparr> ''A''
     = Some \<lparr>name = ''A'', offset = 1, lsize = 0\<rparr>
   \<and> firstNamed [\<lparr>name = ''A'', offset = 0, lsize = 0\<rparr>, \<lparr>name = ''A'', offset = 1, lsize = 0\<rparr>] ''A''
     = Some \<lparr>name = ''A'', offset = 0, lsize = 0\<rparr>
   \<and> getLump \<lparr>buffer = dup_wad,
          lumps = [\<lparr>name = ''A'', offset = 0, lsize = 0\<rparr>, \<lparr>name = ''A'', offset = 1, lsize = 0\<rparr>],
          lumpMap = [(''A'', \<lparr>name = ''A'', offset = 1, lsize = 0\<rparr>)]\<rparr> ''A''
     \<noteq> firstNamed [\<lparr>name = ''A'', offset = 0, lsize = 0\<rparr>, \<lparr>name = ''A'', offset = 1, lsize = 0\<rparr>] ''A''"
  using parse_dup_wad by (simp add: getLump_def firstNamed_def)

section \<open>Claim C4: the directory of an accepted container\<close>

text \<open>
  C4 (as amended). For every container the parser accepts, the directory's length is
  the header's lump count when that count is not negative and 0 when it is, and entry
  \<open>i\<close> holds the offset and the length read as 32-bit integers at directory offset
  plus \<open>16 i\<close> and plus \<open>16 i + 4\<close>: the two fields are stored as read and are not
  compared with the buffer's length.
\<close>

theorem parse_directory:
  assumes "parse buf = Inr w"
    and "headerNumLumps buf = Inr n"
    and "getInt32 buf 8 = Inr d"
  shows "int (length (lumps w)) = max 0 n \<and>
         (\<forall>i<length (lumps w).
            getInt32 buf (d + 16 * int i) = Inr (offset (lumps w ! i)) \<and>
            getInt32 buf (d + 16 * int i + 4) = Inr (lsize (lumps w ! i)))"
proof -
  from assms obtain ls m where
    loop: "parse_loop buf (nat n) d [] [] = Inr (ls, m)" and
    w: "w = \<lparr>buffer = buf, lumps = ls, lumpMap = m\<rparr>"
    by (auto simp: parse_def headerNumLumps_def bindE_Inr_iff split: if_splits)
  from parse_loop_entries [OF loop] show ?thesis by (auto simp: w)
qed

theorem parse_directory_witness:
  "parse oob_wad =
     Inr \<lparr>buffer = oob_wad,
          lumps = [\<lparr>name = ''A'', offset = 1000, lsize = 50\<rparr>],
          lumpMap = [(''A'', \<lparr>name = ''A'', offset = 1000, lsize = 50\<rparr>)]\<rparr>
   \<and> headerNumLumps oob_wad = Inr 1
   \<and> getInt32 oob_wad 8 = Inr 12
   \<and> getInt32 oob_wad 12 = Inr 1000
   \<and> getInt32 oob_wad 16 = Inr 50"
proof -
  have h: "headerNumLumps oob_wad = Inr 1" unfolding headerNumLumps_def by code_simp
  have d: "getInt32 oob_wad 8 = Inr 12" by code_simp
  from parse_directory [OF parse_oob_wad h d] show ?thesis
    using parse_oob_wad h d by simp
qed

text \<open>
  The claim as stated fails twice. \<open>oob_wad\<close> is accepted although its only entry
  declares the byte range 1000 to 1050 of a buffer of 28 bytes; \<open>neg_wad\<close> is accepted
  with an empty directory although its header's lump count is \<open>-1\<close>.
\<close>

theorem parse_in_buffer_counterexample:
  "parse oob_wad =
     Inr \<lparr>buffer = oob_wad,
          lumps = [\<lparr>name = ''A'', offset = 1000, lsize = 50\<rparr>],
          lumpMap = [(''A'', \<lparr>name = ''A'', offset = 1000, lsize = 50\<rparr>)]\<rparr>
   \<and> length oob_wad = 28
   \<and> \<not> lumpInBuffer oob_wad \<lparr>name = ''A'', offset = 1000, lsize = 50\<rparr>
   \<and> parse neg_wad = Inr \<lparr>buffer = neg_wad, lumps = [], lumpMap = []\<rparr>
   \<and> headerNumLumps neg_wad = Inr (- 1)"
proof -
  have 1: "length oob_wad = 28" by (simp add: oob_wad_def)
  have 2: "\<not> lumpInBuffer oob_wad \<lparr>name = ''A'', offset = 1000, lsize = 50\<rparr>"
    by (simp add: lumpInBuffer_def 1)
  have 3: "parse neg_wad = Inr \<lparr>buffer = neg_wad, lumps = [], lumpMap = []\<rparr>"
    by code_simp
  have 4: "headerNumLumps neg_wad = Inr (- 1)" unfolding headerNumLumps_def by code_simp
  from parse_oob_wad 1 2 3 4 show ?thesis by simp
qed

section \<open>What the reads throw\<close>

lemma getInt16_Inr: "getInt16 view p = Inr v \<Longrightarrow> 0 \<le> p \<and> p + 2 \<le> int (length view)"
  by (simp add: getInt16_def split: if_splits)

lemma getInt16_Inl: "getInt16 view p = Inl e \<Longrightarrow> e = RangeError"
  by (simp add: getInt16_def Let_def split: if_splits)

lemma getUint8_Inl: "getUint8 view p = Inl e \<Longrightarrow> e = RangeError"
  by (simp add: getUint8_def split: if_splits)

lemma readString_loop_Inl: "readString_loop view p n s = Inl e \<Longrightarrow> e = RangeError"
  by (induction n arbitrary: p s) (auto split: sum.splits if_splits dest: getUint8_Inl)

lemma readString_Inl: "readString view p n = Inl e \<Longrightarrow> e = RangeError"
  by (simp add: readString_def readString_loop_Inl)

lemma newDataView_Inl: "newDataView buf p n = Inl e \<Longrightarrow> e = RangeError"
  by (simp add: newDataView_def split: if_splits)

lemma bindE_getInt16_RangeError:
  "(\<And>v. getInt16 view p = Inr v \<Longrightarrow> f v = Inl RangeError) \<Longrightarrow>
   bindE (getInt16 view p) f = Inl RangeError"
  by (cases "getInt16 view p") (auto dest: getInt16_Inl)

lemma bindE_readString_RangeError:
  "(\<And>v. readString view p n = Inr v \<Longrightarrow> f v = Inl RangeError) \<Longrightarrow>
   bindE (readString view p n) f = Inl RangeError"
  by (cases "readString view p n") (auto dest: readString_Inl)

lemma throws_bindE_getInt16:
  "(\<And>v. getInt16 view p = Inr v \<Longrightarrow> throwsOnlyRangeError (f v)) \<Longrightarrow>
   throwsOnlyRangeError (bindE (getInt16 view p) f)"
  by (cases "getInt16 view p") (auto simp: throwsOnlyRangeError_def dest: getInt16_Inl)

lemma throws_bindE_readString:
  "(\<And>v. readString view p n = Inr v \<Longrightarrow> throwsOnlyRangeError (f v)) \<Longrightarrow>
   throwsOnlyRangeError (bindE (readString view p n) f)"
  by (cases "readString view p n") (auto simp: throwsOnlyRangeError_def dest: readString_Inl)

lemma throws_bindE_newDataView:
  "(\<And>v. newDataView buf p n = Inr v \<Longrightarrow> throwsOnlyRangeError (f v)) \<Longrightarrow>
   throwsOnlyRangeError (bindE (newDataView buf p n) f)"
  by (cases "newDataView buf p n") (auto simp: throwsOnlyRangeError_def dest: newDataView_Inl)

lemma throws_bindE:
  "throwsOnlyRangeError r \<Longrightarrow> (\<And>v. r = Inr v \<Longrightarrow> throwsOnlyRangeError (f v)) \<Longrightarrow>
   throwsOnlyRangeError (bindE r f)"
  by (cases r) (auto simp: throwsOnlyRangeError_def)

section \<open>The record decoders on a truncated lump\<close>

lemma parseThings_loop_truncated:
  "int (length view) = lumpSize \<Longrightarrow> lumpSize mod 10 \<noteq> 0 \<Longrightarrow> 0 \<le> i \<Longrightarrow>
   i * 10 \<le> lumpSize \<Longrightarrow> parseThings_loop view lumpSize i acc = Inl RangeError"
proof (induction view lumpSize i acc rule: parseThings_loop.induct)
  case (1 view lumpSize i acc)
  from "1.prems" have lt: "i * 10 < lumpSize" by presburger
  show ?case
    apply (subst parseThings_loop.simps)
    apply (simp only: lt if_True)
    apply (intro bindE_getInt16_RangeError bindE_readString_RangeError)
    apply (rule "1.IH" [OF lt])
    apply assumption+
    using "1.prems" apply (auto dest!: getInt16_Inr)
    done
qed

lemma parseThings_truncated:
  "firstNamed mapLumps ''THINGS'' = Some l \<Longrightarrow> lsize l mod 10 \<noteq> 0 \<Longrightarrow>
   parseThings w mapLumps = Inl RangeError"
  by (auto simp: parseThings_def newDataView_def intro!: parseThings_loop_truncated)

lemma parseThings_loop_throws:
  "throwsOnlyRangeError (parseThings_loop view lumpSize i acc)"
proof (induction view lumpSize i acc rule: parseThings_loop.induct)
  case (1 view lumpSize i acc)
  show ?case
  proof (cases "i * 10 < lumpSize")
    case False
    then show ?thesis
      by (subst parseThings_loop.simps) (simp add: throwsOnlyRangeError_def)
  next
    case True
    show ?thesis
      apply (subst parseThings_loop.simps)
      apply (simp only: True if_True)
      apply (intro throws_bindE_getInt16 throws_bindE_readString)
      apply (rule "1.IH" [OF True])
      apply assumption+
      done
  qed
qed

lemma parseThings_throws: "throwsOnlyRangeError (parseThings w mapLumps)"
  unfolding parseThings_def
  by (auto split: option.splits intro!: throws_bindE_newDataView parseThings_loop_throws)
    (simp_all add: throwsOnlyRangeError_def)

lemma parseLinedefs_loop_truncated:
  "int (length view) = lumpSize \<Longrightarrow> lumpSize mod 14 \<noteq> 0 \<Longrightarrow> 0 \<le> i \<Longrightarrow>
   i * 14 \<le> lumpSize \<Longrightarrow> parseLinedefs_loop view lumpSize i acc = Inl RangeError"
proof (induction view lumpSize i acc rule: parseLinedefs_loop.induct)
  case (1 view lumpSize i acc)
  from "1.prems" have lt: "i * 14 < lumpSize" by presburger
  show ?case
    apply (subst parseLinedefs_loop.simps)
    apply (simp only: lt if_True)
    apply (intro bindE_getInt16_RangeError bindE_readString_RangeError)
    apply (rule "1.IH" [OF lt])
    apply assumption+
    using "1.prems" apply (auto dest!: getInt16_Inr)
    done
qed

lemma parseLinedefs_truncated:
  "firstNamed mapLumps ''LINEDEFS'' = Some l \<Longrightarrow> lsize l mod 14 \<noteq> 0 \<Longrightarrow>
   parseLinedefs w mapLumps = Inl RangeError"
  by (auto simp: parseLinedefs_def newDataView_def intro!: parseLinedefs_loop_truncated)

lemma parseLinedefs_loop_throws:
  "throwsOnlyRangeError (parseLinedefs_loop view lumpSize i acc)"
proof (induction view lumpSize i acc rule: parseLinedefs_loop.induct)
  case (1 view lumpSize i acc)
  show ?case
  proof (cases "i * 14 < lumpSize")
    case False
    then show ?thesis
      by (subst parseLinedefs_loop.simps) (simp add: throwsOnlyRangeError_def)
  next
    case True
    show ?thesis
      apply (subst parseLinedefs_loop.simps)
      apply (simp only: True if_True)
      apply (intro throws_bindE_getInt16 throws_bindE_readString)
      apply (rule "1.IH" [OF True])
      apply assumption+
      done
  qed
qed

lemma parseLinedefs_throws: "throwsOnlyRangeError (parseLinedefs w mapLumps)"
  unfolding parseLinedefs_def
  by (auto split: option.splits intro!: throws_bindE_newDataView parseLinedefs_loop_throws)
    (simp_all add: throwsOnlyRangeError_def)

lemma parseSidedefs_loop_truncated:
  "int (length view) = lumpSize \<Longrightarrow> lumpSize mod 30 \<noteq> 0 \<Longrightarrow> 0 \<le> i \<Longrightarrow>
   i * 30 \<le> lumpSize \<Longrightarrow> parseSidedefs_loop buf lumpOffset view lumpSize i acc = Inl RangeError"
proof (induction buf lumpOffset view lumpSize i acc rule: parseSidedefs_loop.induct)
  case (1 buf lumpOffset view lumpSize i acc)
  from "1.prems" have lt: "i * 30 < lumpSize" by presburger
  show ?case
    apply (subst parseSidedefs_loop.simps)
    apply (simp only: lt if_True)
    apply (intro bindE_getInt16_RangeError bindE_readString_RangeError)
    apply (rule "1.IH" [OF lt])
    apply assumption+
    using "1.prems" apply (auto dest!: getInt16_Inr)
    done
qed

lemma parseSidedefs_truncated:
  "firstNamed mapLumps ''SIDEDEFS'' = Some l \<Longrightarrow> lsize l mod 30 \<noteq> 0 \<Longrightarrow>
   parseSidedefs w mapLumps = Inl RangeError"
  by (auto simp: parseSidedefs_def newDataView_def intro!: parseSidedefs_loop_truncated)

lemma parseSidedefs_loop_throws:
  "throwsOnlyRangeError (parseSidedefs_loop buf lumpOffset view lumpSize i acc)"
proof (induction buf lumpOffset view lumpSize i acc rule: parseSidedefs_loop.induct)
  case (1 buf lumpOffset view lumpSize i acc)
  show ?case
  proof (cases "i * 30 < lumpSize")
    case False
    then show ?thesis
      by (subst parseSidedefs_loop.simps) (simp add: throwsOnlyRangeError_def)
  next
    case True
    show ?thesis
      apply (subst parseSidedefs_loop.simps)
      apply (simp only: True if_True)
      apply (intro throws_bindE_getInt16 throws_bindE_readString)
      apply (rule "1.IH" [OF True])
      apply assumption+
      done
  qed
qed

lemma parseSidedefs_throws: "throwsOnlyRangeError (parseSidedefs w mapLumps)"
  unfolding parseSidedefs_def
  by (auto split: option.splits intro!: throws_bindE_newDataView parseSidedefs_loop_throws)
    (simp_all add: throwsOnlyRangeError_def)

lemma parseVertexes_loop_truncated:
  "int (length view) = lumpSize \<Longrightarrow> lumpSize mod 4 \<noteq> 0 \<Longrightarrow> 0 \<le> i \<Longrightarrow>
   i * 4 \<le> lumpSize \<Longrightarrow> parseVertexes_loop view lumpSize i acc = Inl RangeError"
proof (induction view lumpSize i acc rule: parseVertexes_loop.induct)
  case (1 view lumpSize i acc)
  from "1.prems" have lt: "i * 4 < lumpSize" by presburger
  show ?case
    apply (subst parseVertexes_loop.simps)
    apply (simp only: lt if_True)
    apply (intro bindE_getInt16_RangeError bindE_readString_RangeError)
    apply (rule "1.IH" [OF lt])
    apply assumption+
    using "1.prems" apply (auto dest!: getInt16_Inr)
    done
qed

lemma parseVertexes_truncated:
  "firstNamed mapLumps ''VERTEXES'' = Some l \<Longrightarrow> lsize l mod 4 \<noteq> 0 \<Longrightarrow>
   parseVertexes w mapLumps = Inl RangeError"
  by (auto simp: parseVertexes_def newDataView_def intro!: parseVertexes_loop_truncated)

lemma parseVertexes_loop_throws:
  "throwsOnlyRangeError (parseVertexes_loop view lumpSize i acc)"
proof (induction view lumpSize i acc rule: parseVertexes_loop.induct)
  case (1 view lumpSize i acc)
  show ?case
  proof (cases "i * 4 < lumpSize")
    case False
    then show ?thesis
      by (subst parseVertexes_loop.simps) (simp add: throwsOnlyRangeError_def)
  next
    case True
    show ?thesis
      apply (subst parseVertexes_loop.simps)
      apply (simp only: True if_True)
      apply (intro throws_bindE_getInt16 throws_bindE_readString)
      apply (rule "1.IH" [OF True])
      apply assumption+
      done
  qed
qed

lemma parseVertexes_throws: "throwsOnlyRangeError (parseVertexes w mapLumps)"
  unfolding parseVertexes_def
  by (auto split: option.splits intro!: throws_bindE_newDataView parseVertexes_loop_throws)
    (simp_all add: throwsOnlyRangeError_def)

lemma parseSectors_loop_truncated:
  "int (length view) = lumpSize \<Longrightarrow> lumpSize mod 26 \<noteq> 0 \<Longrightarrow> 0 \<le> i \<Longrightarrow>
   i * 26 \<le> lumpSize \<Longrightarrow> parseSectors_loop buf lumpOffset view lumpSize i acc = Inl RangeError"
proof (induction buf lumpOffset view lumpSize i acc rule: parseSectors_loop.induct)
  case (1 buf lumpOffset view lumpSize i acc)
  from "1.prems" have lt: "i * 26 < lumpSize" by presburger
  show ?case
    apply (subst parseSectors_loop.simps)
    apply (simp only: lt if_True)
    apply (intro bindE_getInt16_RangeError bindE_readString_RangeError)
    apply (rule "1.IH" [OF lt])
    apply assumption+
    using "1.prems" apply (auto dest!: getInt16_Inr)
    done
qed

lemma parseSectors_truncated:
  "firstNamed mapLumps ''SECTORS'' = Some l \<Longrightarrow> lsize l mod 26 \<noteq> 0 \<Longrightarrow>
   parseSectors w mapLumps = Inl RangeError"
  by (auto simp: parseSectors_def newDataView_def intro!: parseSectors_loop_truncated)

lemma parseSectors_loop_throws:
  "throwsOnlyRangeError (parseSectors_loop buf lumpOffset view lumpSize i acc)"
proof (induction buf lumpOffset view lumpSize i acc rule: parseSectors_loop.induct)
  case (1 buf lumpOffset view lumpSize i acc)
  show ?case
  proof (cases "i * 26 < lumpSize")
    case False
    then show ?thesis
      by (subst parseSectors_loop.simps) (simp add: throwsOnlyRangeError_def)
  next
    case True
    show ?thesis
      apply (subst parseSectors_loop.simps)
      apply (simp only: True if_True)
      apply (intro throws_bindE_getInt16 throws_bindE_readString)
      apply (rule "1.IH" [OF True])
      apply assumption+
      done
  qed
qed

lemma parseSectors_throws: "throwsOnlyRangeError (parseSectors w mapLumps)"
  unfolding parseSectors_def
  by (auto split: option.splits intro!: throws_bindE_newDataView parseSectors_loop_throws)
    (simp_all add: throwsOnlyRangeError_def)

lemma parseSegs_loop_truncated:
  "int (length view) = lumpSize \<Longrightarrow> lumpSize mod 12 \<noteq> 0 \<Longrightarrow> 0 \<le> i \<Longrightarrow>
   i * 12 \<le> lumpSize \<Longrightarrow> parseSegs_loop view lumpSize i acc = Inl RangeError"
proof (induction view lumpSize i acc rule: parseSegs_loop.induct)
  case (1 view lumpSize i acc)
  from "1.prems" have lt: "i * 12 < lumpSize" by presburger
  show ?case
    apply (subst parseSegs_loop.simps)
    apply (simp only: lt if_True)
    apply (intro bindE_getInt16_RangeError bindE_readString_RangeError)
    apply (rule "1.IH" [OF lt])
    apply assumption+
    using "1.prems" apply (auto dest!: getInt16_Inr)
    done
qed

lemma parseSegs_truncated:
  "firstNamed mapLumps ''SEGS'' = Some l \<Longrightarrow> lsize l mod 12 \<noteq> 0 \<Longrightarrow>
   parseSegs w mapLumps = Inl RangeError"
  by (auto simp: parseSegs_def newDataView_def intro!: parseSegs_loop_truncated)

lemma parseSegs_loop_throws:
  "throwsOnlyRangeError (parseSegs_loop view lumpSize i acc)"
proof (induction view lumpSize i acc rule: parseSegs_loop.induct)
  case (1 view lumpSize i acc)
  show ?case
  proof (cases "i * 12 < lumpSize")
    case False
    then show ?thesis
      by (subst parseSegs_loop.simps) (simp add: throwsOnlyRangeError_def)
  next
    case True
    show ?thesis
      apply (subst parseSegs_loop.simps)
      apply (simp only: True if_True)
      apply (intro throws_bindE_getInt16 throws_bindE_readString)
      apply (rule "1.IH" [OF True])
      apply assumption+
      done
  qed
qed

lemma parseSegs_throws: "throwsOnlyRangeError (parseSegs w mapLumps)"
  unfolding parseSegs_def
  by (auto split: option.splits intro!: throws_bindE_newDataView parseSegs_loop_throws)
    (simp_all add: throwsOnlyRangeError_def)

lemma parseSSectors_loop_truncated:
  "int (length view) = lumpSize \<Longrightarrow> lumpSize mod 4 \<noteq> 0 \<Longrightarrow> 0 \<le> i \<Longrightarrow>
   i * 4 \<le> lumpSize \<Longrightarrow> parseSSectors_loop view lumpSize i acc = Inl RangeError"
proof (induction view lumpSize i acc rule: parseSSectors_loop.induct)
  case (1 view lumpSize i acc)
  from "1.prems" have lt: "i * 4 < lumpSize" by presburger
  show ?case
    apply (subst parseSSectors_loop.simps)
    apply (simp only: lt if_True)
    apply (intro bindE_getInt16_RangeError bindE_readString_RangeError)
    apply (rule "1.IH" [OF lt])
    apply assumption+
    using "1.prems" apply (auto dest!: getInt16_Inr)
    done
qed

lemma parseSSectors_truncated:
  "firstNamed mapLumps ''SSECTORS'' = Some l \<Longrightarrow> lsize l mod 4 \<noteq> 0 \<Longrightarrow>
   parseSSectors w mapLumps = Inl RangeError"
  by (auto simp: parseSSectors_def newDataView_def intro!: parseSSectors_loop_truncated)

lemma parseSSectors_loop_throws:
  "throwsOnlyRangeError (parseSSectors_loop view lumpSize i acc)"
proof (induction view lumpSize i acc rule: parseSSectors_loop.induct)
  case (1 view lumpSize i acc)
  show ?case
  proof (cases "i * 4 < lumpSize")
    case False
    then show ?thesis
      by (subst parseSSectors_loop.simps) (simp add: throwsOnlyRangeError_def)
  next
    case True
    show ?thesis
      apply (subst parseSSectors_loop.simps)
      apply (simp only: True if_True)
      apply (intro throws_bindE_getInt16 throws_bindE_readString)
      apply (rule "1.IH" [OF True])
      apply assumption+
      done
  qed
qed

lemma parseSSectors_throws: "throwsOnlyRangeError (parseSSectors w mapLumps)"
  unfolding parseSSectors_def
  by (auto split: option.splits intro!: throws_bindE_newDataView parseSSectors_loop_throws)
    (simp_all add: throwsOnlyRangeError_def)

lemma parseNodes_loop_truncated:
  "int (length view) = lumpSize \<Longrightarrow> lumpSize mod 28 \<noteq> 0 \<Longrightarrow> 0 \<le> i \<Longrightarrow>
   i * 28 \<le> lumpSize \<Longrightarrow> parseNodes_loop view lumpSize i acc = Inl RangeError"
proof (induction view lumpSize i acc rule: parseNodes_loop.induct)
  case (1 view lumpSize i acc)
  from "1.prems" have lt: "i * 28 < lumpSize" by presburger
  show ?case
    apply (subst parseNodes_loop.simps)
    apply (simp only: lt if_True)
    apply (intro bindE_getInt16_RangeError bindE_readString_RangeError)
    apply (rule "1.IH" [OF lt])
    apply assumption+
    using "1.prems" apply (auto dest!: getInt16_Inr)
    done
qed

lemma parseNodes_truncated:
  "firstNamed mapLumps ''NODES'' = Some l \<Longrightarrow> lsize l mod 28 \<noteq> 0 \<Longrightarrow>
   parseNodes w mapLumps = Inl RangeError"
  by (auto simp: parseNodes_def newDataView_def intro!: parseNodes_loop_truncated)

lemma parseNodes_loop_throws:
  "throwsOnlyRangeError (parseNodes_loop view lumpSize i acc)"
proof (induction view lumpSize i acc rule: parseNodes_loop.induct)
  case (1 view lumpSize i acc)
  show ?case
  proof (cases "i * 28 < lumpSize")
    case False
    then show ?thesis
      by (subst parseNodes_loop.simps) (simp add: throwsOnlyRangeError_def)
  next
    case True
    show ?thesis
      apply (subst parseNodes_loop.simps)
      apply (simp only: True if_True)
      apply (intro throws_bindE_getInt16 throws_bindE_readString)
      apply (rule "1.IH" [OF True])
      apply assumption+
      done
  qed
qed

lemma parseNodes_throws: "throwsOnlyRangeError (parseNodes w mapLumps)"
  unfolding parseNodes_def
  by (auto split: option.splits intro!: throws_bindE_newDataView parseNodes_loop_throws)
    (simp_all add: throwsOnlyRangeError_def)

lemma getMap_throws_RangeError:
  assumes "mapLumpsOf (lumps w) mapName = Some mapLumps"
    and "parseThings w mapLumps = Inl RangeError \<or> parseLinedefs w mapLumps = Inl RangeError \<or>
         parseSidedefs w mapLumps = Inl RangeError \<or> parseVertexes w mapLumps = Inl RangeError \<or>
         parseSectors w mapLumps = Inl RangeError \<or> parseSegs w mapLumps = Inl RangeError \<or>
         parseSSectors w mapLumps = Inl RangeError \<or> parseNodes w mapLumps = Inl RangeError"
  shows "getMap w mapName = Inl RangeError"
proof -
  have t: "\<And>r. throwsOnlyRangeError r \<Longrightarrow> (\<exists>v. r = Inr v) \<or> r = Inl RangeError"
    by (auto simp: throwsOnlyRangeError_def split: sum.splits)
  note ts = t [OF parseThings_throws [of w mapLumps]] t [OF parseLinedefs_throws [of w mapLumps]]
    t [OF parseSidedefs_throws [of w mapLumps]] t [OF parseVertexes_throws [of w mapLumps]]
    t [OF parseSectors_throws [of w mapLumps]] t [OF parseSegs_throws [of w mapLumps]]
    t [OF parseSSectors_throws [of w mapLumps]] t [OF parseNodes_throws [of w mapLumps]]
  show ?thesis
    using assms(2) ts unfolding getMap_def assms(1) option.case
    by (elim disjE exE) simp_all
qed

lemma parse_trunc_wad: "parse trunc_wad = Inr trunc_parsed"
  unfolding trunc_parsed_def trunc_lumps_def by code_simp

lemma mapLumpsOf_trunc: "mapLumpsOf (lumps trunc_parsed) ''E1M1'' = Some trunc_lumps"
  unfolding trunc_parsed_def trunc_lumps_def by code_simp

section \<open>Claim C3: a sub-lump whose length is not a multiple of the record size\<close>

text \<open>
  C3 (as amended). For each of the map sub-lumps THINGS, LINEDEFS, SIDEDEFS, VERTEXES,
  SECTORS, SEGS, SSECTORS and NODES whose byte length is not an exact multiple of its
  record size (10, 14, 30, 4, 26, 12, 4 and 28 bytes), the decoder throws RangeError:
  from the DataView constructor when the lump's range leaves the buffer, and otherwise
  from a read inside the partial trailing record, which the loop enters after the
  complete records. No result, and so no empty sequence, is returned for the
  category, and \<open>getMap\<close> as a whole throws RangeError: the load of the map does not
  continue.
\<close>

theorem truncated_lump_throws:
  "(truncatedLump mapLumps ''THINGS'' 10 \<longrightarrow> parseThings w mapLumps = Inl RangeError) \<and>
   (truncatedLump mapLumps ''LINEDEFS'' 14 \<longrightarrow> parseLinedefs w mapLumps = Inl RangeError) \<and>
   (truncatedLump mapLumps ''SIDEDEFS'' 30 \<longrightarrow> parseSidedefs w mapLumps = Inl RangeError) \<and>
   (truncatedLump mapLumps ''VERTEXES'' 4 \<longrightarrow> parseVertexes w mapLumps = Inl RangeError) \<and>
   (truncatedLump mapLumps ''SECTORS'' 26 \<longrightarrow> parseSectors w mapLumps = Inl RangeError) \<and>
   (truncatedLump mapLumps ''SEGS'' 12 \<longrightarrow> parseSegs w mapLumps = Inl RangeError) \<and>
   (truncatedLump mapLumps ''SSECTORS'' 4 \<longrightarrow> parseSSectors w mapLumps = Inl RangeError) \<and>
   (truncatedLump mapLumps ''NODES'' 28 \<longrightarrow> parseNodes w mapLumps = Inl RangeError) \<and>
   (mapLumpsOf (lumps w) mapName = Some mapLumps \<and>
    (truncatedLump mapLumps ''THINGS'' 10 \<or> truncatedLump mapLumps ''LINEDEFS'' 14 \<or>
     truncatedLump mapLumps ''SIDEDEFS'' 30 \<or> truncatedLump mapLumps ''VERTEXES'' 4 \<or>
     truncatedLump mapLumps ''SECTORS'' 26 \<or> truncatedLump mapLumps ''SEGS'' 12 \<or>
     truncatedLump mapLumps ''SSECTORS'' 4 \<or> truncatedLump mapLumps ''NODES'' 28)
    \<longrightarrow> getMap w mapName = Inl RangeError)"
proof -
  have 1: "truncatedLump mapLumps ''THINGS'' 10 \<Longrightarrow> parseThings w mapLumps = Inl RangeError"
    by (auto simp: truncatedLump_def split: option.splits intro: parseThings_truncated)
  have 2: "truncatedLump mapLumps ''LINEDEFS'' 14 \<Longrightarrow> parseLinedefs w mapLumps = Inl RangeError"
    by (auto simp: truncatedLump_def split: option.splits intro: parseLinedefs_truncated)
  have 3: "truncatedLump mapLumps ''SIDEDEFS'' 30 \<Longrightarrow> parseSidedefs w mapLumps = Inl RangeError"
    by (auto simp: truncatedLump_def split: option.splits intro: parseSidedefs_truncated)
  have 4: "truncatedLump mapLumps ''VERTEXES'' 4 \<Longrightarrow> parseVertexes w mapLumps = Inl RangeError"
    by (auto simp: truncatedLump_def split: option.splits intro: parseVertexes_truncated)
  have 5: "truncatedLump mapLumps ''SECTORS'' 26 \<Longrightarrow> parseSectors w mapLumps = Inl RangeError"
    by (auto simp: truncatedLump_def split: option.splits intro: parseSectors_truncated)
  have 6: "truncatedLump mapLumps ''SEGS'' 12 \<Longrightarrow> parseSegs w mapLumps = Inl RangeError"
    by (auto simp: truncatedLump_def split: option.splits intro: parseSegs_truncated)
  have 7: "truncatedLump mapLumps ''SSECTORS'' 4 \<Longrightarrow> parseSSectors w mapLumps = Inl RangeError"
    by (auto simp: truncatedLump_def split: option.splits intro: parseSSectors_truncated)
  have 8: "truncatedLump mapLumps ''NODES'' 28 \<Longrightarrow> parseNodes w mapLumps = Inl RangeError"
    by (auto simp: truncatedLump_def split: option.splits intro: parseNodes_truncated)
  have 9: "getMap w mapName = Inl RangeError"
    if "mapLumpsOf (lumps w) mapName = Some mapLumps"
      and "truncatedLump mapLumps ''THINGS'' 10 \<or> truncatedLump mapLumps ''LINEDEFS'' 14 \<or>
           truncatedLump mapLumps ''SIDEDEFS'' 30 \<or> truncatedLump mapLumps ''VERTEXES'' 4 \<or>
           truncatedLump mapLumps ''SECTORS'' 26 \<or> truncatedLump mapLumps ''SEGS'' 12 \<or>
           truncatedLump mapLumps ''SSECTORS'' 4 \<or> truncatedLump mapLumps ''NODES'' 28"
    using that(2) 1 2 3 4 5 6 7 8
    by (intro getMap_throws_RangeError [OF that(1)]) blast
  from 1 2 3 4 5 6 7 8 9 show ?thesis by blast
qed

text \<open>
  The theorem at the map \<open>E1M1\<close> of \<open>trunc_wad\<close>, whose eight sub-lumps are 5 bytes
  long: every decoder throws, and so does \<open>getMap\<close>.
\<close>

theorem truncated_lump_throws_witness:
  "truncatedLump trunc_lumps ''THINGS'' 10 \<and> parseThings trunc_parsed trunc_lumps = Inl RangeError \<and>
   truncatedLump trunc_lumps ''LINEDEFS'' 14 \<and> parseLinedefs trunc_parsed trunc_lumps = Inl RangeError \<and>
   truncatedLump trunc_lumps ''SIDEDEFS'' 30 \<and> parseSidedefs trunc_parsed trunc_lumps = Inl RangeError \<and>
   truncatedLump trunc_lumps ''VERTEXES'' 4 \<and> parseVertexes trunc_parsed trunc_lumps = Inl RangeError \<and>
   truncatedLump trunc_lumps ''SECTORS'' 26 \<and> parseSectors trunc_parsed trunc_lumps = Inl RangeError \<and>
   truncatedLump trunc_lumps ''SEGS'' 12 \<and> parseSegs trunc_parsed trunc_lumps = Inl RangeError \<and>
   truncatedLump trunc_lumps ''SSECTORS'' 4 \<and> parseSSectors trunc_parsed trunc_lumps = Inl RangeError \<and>
   truncatedLump trunc_lumps ''NODES'' 28 \<and> parseNodes trunc_parsed trunc_lumps = Inl RangeError \<and>
   mapLumpsOf (lumps trunc_parsed) ''E1M1'' = Some trunc_lumps \<and>
   getMap trunc_parsed ''E1M1'' = Inl RangeError"
proof -
  have h: "truncatedLump trunc_lumps ''THINGS'' 10" "truncatedLump trunc_lumps ''LINEDEFS'' 14"
    "truncatedLump trunc_lumps ''SIDEDEFS'' 30" "truncatedLump trunc_lumps ''VERTEXES'' 4"
    "truncatedLump trunc_lumps ''SECTORS'' 26" "truncatedLump trunc_lumps ''SEGS'' 12"
    "truncatedLump trunc_lumps ''SSECTORS'' 4" "truncatedLump trunc_lumps ''NODES'' 28"
    by (simp_all add: truncatedLump_def firstNamed_def trunc_lumps_def)
  from truncated_lump_throws [of trunc_lumps trunc_parsed "''E1M1''"] h mapLumpsOf_trunc
  show ?thesis by blast
qed

text \<open>
  The claim as stated fails at \<open>trunc_wad\<close>. Its THINGS lump has 5 bytes in the
  buffer; the decoder reads \<open>x\<close> and \<open>y\<close> of record 0 and throws RangeError at the
  read of \<open>angle\<close> (bytes 4 and 5 of a view of 5 bytes). The result is neither an
  empty sequence nor any other value, and \<open>getMap\<close> throws the same exception.
\<close>

theorem truncated_things_counterexample:
  "parse trunc_wad = Inr trunc_parsed \<and>
   mapLumpsOf (lumps trunc_parsed) ''E1M1'' = Some trunc_lumps \<and>
   firstNamed trunc_lumps ''THINGS'' = Some \<lparr>name = ''THINGS'', offset = 12, lsize = 5\<rparr> \<and>
   newDataView trunc_wad 12 5 = Inr [0, 0, 0, 0, 0] \<and>
   getInt16 [0, 0, 0, 0, 0] 0 = Inr 0 \<and>
   getInt16 [0, 0, 0, 0, 0] 2 = Inr 0 \<and>
   getInt16 [0, 0, 0, 0, 0] 4 = Inl RangeError \<and>
   parseThings trunc_parsed trunc_lumps = Inl RangeError \<and>
   parseThings trunc_parsed trunc_lumps \<noteq> Inr [] \<and>
   getMap trunc_parsed ''E1M1'' = Inl RangeError"
proof -
  have 1: "firstNamed trunc_lumps ''THINGS'' = Some \<lparr>name = ''THINGS'', offset = 12, lsize = 5\<rparr>"
    by (simp add: firstNamed_def trunc_lumps_def)
  have 2: "newDataView trunc_wad 12 5 = Inr [0, 0, 0, 0, 0]"
    by (simp add: newDataView_def trunc_wad_def)
  have 3: "getInt16 [0, 0, 0, 0, 0] 0 = Inr 0" "getInt16 [0, 0, 0, 0, 0] 2 = Inr 0"
    "getInt16 [0, 0, 0, 0, 0] 4 = Inl RangeError"
    by (simp_all add: getInt16_def)
  have 4: "parseThings trunc_parsed trunc_lumps = Inl RangeError"
    by (rule parseThings_truncated [OF 1]) simp
  have 5: "getMap trunc_parsed ''E1M1'' = Inl RangeError"
    by (rule getMap_throws_RangeError [OF mapLumpsOf_trunc]) (simp add: 4)
  from parse_trunc_wad mapLumpsOf_trunc 1 2 3 4 5 show ?thesis by simp
qed

section \<open>Claim C10: the palette\<close>

lemma parse_pal_wad: "parse pal_wad = Inr pal_parsed"
  unfolding pal_parsed_def by code_simp

lemma parse_pal_oob_wad: "parse pal_oob_wad = Inr pal_oob_parsed"
  unfolding pal_oob_parsed_def by code_simp

lemma getDefaultPalette_length: "length getDefaultPalette = 256"
  by (simp add: getDefaultPalette_def)

lemma getDefaultPalette_nth: "i < 256 \<Longrightarrow> getDefaultPalette ! i = (i, i, i)"
  unfolding getDefaultPalette_def by (simp del: upt_Suc)

text \<open>
  C10 (as amended). For every parsed container in which the byte range of the lump
  PLAYPAL, if there is one, lies within the buffer, \<open>getPalette\<close> returns exactly 256
  RGB triples: the grayscale palette with entry \<open>i\<close> equal to \<open>(i, i, i)\<close> when the lump
  is absent or shorter than 768 bytes, and otherwise entry \<open>i\<close> is the bytes \<open>3 i\<close>,
  \<open>3 i + 1\<close> and \<open>3 i + 2\<close> of the lump.
\<close>

theorem getPalette_256:
  assumes "case getLump w ''PLAYPAL'' of None \<Rightarrow> True | Some l \<Rightarrow> lumpInBuffer (buffer w) l"
  shows "\<exists>p. getPalette w = Inr p \<and> length p = 256 \<and>
     (case getLump w ''PLAYPAL'' of
        None \<Rightarrow> (\<forall>i<256. p ! i = (i, i, i))
      | Some l \<Rightarrow>
          if lsize l < 768 then (\<forall>i<256. p ! i = (i, i, i))
          else (\<forall>i<256. p ! i =
                 (unat (buffer w ! (nat (offset l) + 3 * i)),
                  unat (buffer w ! (nat (offset l) + 3 * i + 1)),
                  unat (buffer w ! (nat (offset l) + 3 * i + 2)))))"
proof (cases "getLump w ''PLAYPAL''")
  case None
  then show ?thesis
    by (simp add: getPalette_def getLumpData_def getDefaultPalette_length getDefaultPalette_nth)
next
  case (Some l)
  with assms have inb: "lumpInBuffer (buffer w) l" by simp
  define d where "d = take (nat (lsize l)) (drop (nat (offset l)) (buffer w))"
  from inb have view: "newUint8Array (buffer w) (offset l) (lsize l) = Inr d"
    by (auto simp: newUint8Array_def newDataView_def lumpInBuffer_def d_def)
  from inb have len: "length d = nat (lsize l)"
    by (auto simp: lumpInBuffer_def d_def)
  from inb have off: "nat (offset l) \<le> length (buffer w)"
    by (auto simp: lumpInBuffer_def)
  have nth: "d ! j = buffer w ! (nat (offset l) + j)" if "j < nat (lsize l)" for j
    using that off by (simp add: d_def)
  show ?thesis
  proof (cases "lsize l < 768")
    case True
    with len have "length d < 768" by simp
    with Some view True show ?thesis
      by (simp add: getPalette_def getLumpData_def getDefaultPalette_length getDefaultPalette_nth)
  next
    case False
    with len have long: "\<not> length d < 768" by simp
    have ent: "(unat (d ! (i * 3)), unat (d ! (i * 3 + 1)), unat (d ! (i * 3 + 2))) =
               (unat (buffer w ! (nat (offset l) + 3 * i)),
                unat (buffer w ! (nat (offset l) + 3 * i + 1)),
                unat (buffer w ! (nat (offset l) + 3 * i + 2)))" if "i < 256" for i
    proof -
      from that False have "i * 3 < nat (lsize l)" "i * 3 + 1 < nat (lsize l)"
        "i * 3 + 2 < nat (lsize l)" by linarith+
      then show ?thesis by (simp add: nth mult.commute add.assoc)
    qed
    from Some view long False ent show ?thesis
      by (simp add: getPalette_def getLumpData_def del: upt_Suc)
  qed
qed

text \<open>
  The theorem at \<open>pal_wad\<close>, whose lump PLAYPAL has 3 bytes inside the buffer: the
  result is the grayscale palette.
\<close>

theorem getPalette_256_witness:
  "parse pal_wad = Inr pal_parsed \<and>
   getLump pal_parsed ''PLAYPAL'' = Some \<lparr>name = ''PLAYPAL'', offset = 12, lsize = 3\<rparr> \<and>
   lumpInBuffer (buffer pal_parsed) \<lparr>name = ''PLAYPAL'', offset = 12, lsize = 3\<rparr> \<and>
   (\<exists>p. getPalette pal_parsed = Inr p \<and> length p = 256 \<and> (\<forall>i<256. p ! i = (i, i, i)))"
proof -
  have g: "getLump pal_parsed ''PLAYPAL'' = Some \<lparr>name = ''PLAYPAL'', offset = 12, lsize = 3\<rparr>"
    by (simp add: getLump_def pal_parsed_def)
  have b: "lumpInBuffer (buffer pal_parsed) \<lparr>name = ''PLAYPAL'', offset = 12, lsize = 3\<rparr>"
    by (simp add: lumpInBuffer_def pal_parsed_def pal_wad_def)
  from getPalette_256 [of pal_parsed] g b parse_pal_wad show ?thesis by simp
qed

text \<open>
  The claim as stated fails at \<open>pal_oob_wad\<close>: the container is accepted, its lump
  PLAYPAL is declared with 50 bytes (fewer than 768) at offset 1000 of a buffer of 28
  bytes, and \<open>getPalette\<close> throws RangeError from the \<open>Uint8Array\<close> constructor instead
  of returning the grayscale palette.
\<close>

theorem getPalette_counterexample:
  "parse pal_oob_wad = Inr pal_oob_parsed \<and>
   getLump pal_oob_parsed ''PLAYPAL'' = Some \<lparr>name = ''PLAYPAL'', offset = 1000, lsize = 50\<rparr> \<and>
   length pal_oob_wad = 28 \<and>
   getPalette pal_oob_parsed = Inl RangeError"
proof -
  have g: "getLump pal_oob_parsed ''PLAYPAL'' = Some \<lparr>name = ''PLAYPAL'', offset = 1000, lsize = 50\<rparr>"
    by (simp add: getLump_def pal_oob_parsed_def)
  have n: "length pal_oob_wad = 28" by (simp add: pal_oob_wad_def)
  have "buffer pal_oob_parsed = pal_oob_wad" by (simp add: pal_oob_parsed_def)
  with g n have p: "getPalette pal_oob_parsed = Inl RangeError"
    by (simp add: getPalette_def getLumpData_def newUint8Array_def newDataView_def)
  from parse_pal_oob_wad g n p show ?thesis by simp
qed

section \<open>Claim C1: the collision lines of door linedefs\<close>

lemma parse_door_wad: "parse door_wad = Inr door_parsed"
  unfolding door_parsed_def by code_simp

lemma getMap_door: "getMap door_parsed ''E1M1'' = Inr (Some door_map)"
  unfolding door_parsed_def door_map_def door_linedef_def by code_simp

lemma wallLines_no_door:
  "wallLines m i ld = Inr ls \<Longrightarrow> list_all (\<lambda>l. \<not> isDoor l) ls"
  by (auto simp: wallLines_def arrayIncludes_def linedef_special_def
      split: option.splits if_splits prod.splits)

lemma buildWalls_loop_no_door:
  "buildWalls_loop m i lds acc = Inr ls \<Longrightarrow> list_all (\<lambda>l. \<not> isDoor l) acc \<Longrightarrow>
   list_all (\<lambda>l. \<not> isDoor l) ls"
proof (induction lds arbitrary: i acc)
  case Nil
  then show ?case by simp
next
  case (Cons ld lds)
  from Cons.prems(1) obtain new where
    new: "wallLines m i ld = Inr new" and
    rec: "buildWalls_loop m (i + 1) lds (acc @ new) = Inr ls"
    by (auto simp: bindE_Inr_iff)
  from wallLines_no_door [OF new] Cons.prems(2)
  have "list_all (\<lambda>l. \<not> isDoor l) (acc @ new)" by simp
  from Cons.IH [OF rec this] show ?case .
qed

text \<open>No map makes \<open>buildWalls\<close> push a collision line flagged as a door.\<close>

lemma buildWalls_no_door:
  "buildWalls m = Inr ls \<Longrightarrow> list_all (\<lambda>l. \<not> isDoor l) ls"
  unfolding buildWalls_def by (erule buildWalls_loop_no_door) simp

text \<open>
  C1 is right about the intent of the code and the code misses it. \<open>door_map\<close> is the
  map that \<open>getMap\<close> decodes from \<open>door_wad\<close>; its only linedef is two-sided, both
  sectors resolve, and its special id, stored by \<open>parseLinedefs\<close> in \<open>lineType\<close>,
  is 1, a member of the door-type set. \<open>buildWalls\<close> tests \<open>linedef.special\<close>, a
  property the decoded linedefs do not have, and pushes no collision line at all,
  where the claim (and the comment above the test) promises one line flagged
  \<open>isDoor\<close>.
\<close>

theorem buildWalls_door_map_no_line:
  "parse door_wad = Inr door_parsed \<and>
   getMap door_parsed ''E1M1'' = Inr (Some door_map) \<and>
   linedefs door_map = [door_linedef] \<and>
   frontSidedef door_linedef = 0 \<and> backSidedef door_linedef = 1 \<and>
   lineType door_linedef = 1 \<and> lineType door_linedef \<in> set doorTypes \<and>
   buildWalls door_map = Inr []"
proof -
  have 1: "linedefs door_map = [door_linedef]" by (simp add: door_map_def)
  have 2: "frontSidedef door_linedef = 0" "backSidedef door_linedef = 1"
    "lineType door_linedef = 1" by (simp_all add: door_linedef_def)
  have 3: "lineType door_linedef \<in> set doorTypes" by (simp add: 2 doorTypes_def)
  have 4: "buildWalls door_map = Inr []"
    by (simp add: buildWalls_def wallLines_def arrayGet_def door_map_def door_linedef_def
        arrayIncludes_def linedef_special_def)
  from parse_door_wad getMap_door 1 2 3 4 show ?thesis by simp
qed

section \<open>Claim C9: the boundary-chaining loop terminates within its bound\<close>

lemma traceLoop_bounds:
  "snd (traceLoop vs sl used cur it pts) \<le> max it (length sl * 2) \<and>
   it \<le> snd (traceLoop vs sl used cur it pts) \<and>
   length pts \<le> length (fst (traceLoop vs sl used cur it pts)) \<and>
   length (fst (traceLoop vs sl used cur it pts)) + it
     \<le> length pts + snd (traceLoop vs sl used cur it pts)"
proof (induction vs sl used cur it pts rule: traceLoop.induct)
  case (1 vs sl used cur it pts)
  show ?case
  proof (cases "card used < length sl \<and> it < length sl * 2")
    case False
    then have "traceLoop vs sl used cur it pts = (pts, it)"
      by (subst traceLoop.simps) auto
    then show ?thesis by simp
  next
    case True
    show ?thesis
    proof (cases "findNext sl used cur 0")
      case None
      with True have "traceLoop vs sl used cur it pts = (pts, it + 1)"
        by (subst traceLoop.simps) simp
      with True show ?thesis by simp
    next
      case (Some i)
      let ?pts' = "case arrayGet vs (lineStartV (sl ! i)) of
                     Some v \<Rightarrow> pts @ [(vx v, vy v)] | None \<Rightarrow> pts"
      have step: "traceLoop vs sl used cur it pts =
                  traceLoop vs sl (insert i used) (lineEndV (sl ! i)) (it + 1) ?pts'"
        using True Some by (subst traceLoop.simps) simp
      have len: "length pts \<le> length ?pts'" "length ?pts' \<le> length pts + 1"
        by (simp_all split: option.splits)
      from "1.IH" [OF True Some] True len show ?thesis
        unfolding step by auto
    qed
  qed
qed

text \<open>
  The square room, whose edges are listed out of order: the chain is closed after 3
  iterations and the polygon is the four corners in traversal order.
\<close>

lemma traceLoop_square:
  "collectSectorLines square_map 0 0 (linedefs square_map) \<noteq> [] \<and>
   arrayGet (vertexes square_map)
     (lineStartV (collectSectorLines square_map 0 0 (linedefs square_map) ! 0))
     = Some \<lparr>vx = 0, vy = 0\<rparr> \<and>
   traceLoop (vertexes square_map) (collectSectorLines square_map 0 0 (linedefs square_map))
     {0} (lineEndV (collectSectorLines square_map 0 0 (linedefs square_map) ! 0)) 0 [(0, 0)]
     = ([(0, 0), (100, 0), (100, 100), (0, 100)], 3)"
  unfolding square_map_def by code_simp

lemma getSectorPolygon_square:
  "getSectorPolygon square_map 0 = [(0, 0), (100, 0), (100, 100), (0, 100)]"
  using traceLoop_square by (simp add: getSectorPolygon_def Let_def)

text \<open>
  C9. For every list of edges collected for a region, every set \<open>used\<close>, every running
  end vertex and every seeded point list, the chaining loop, started with
  \<open>iterations = 0\<close>, is left after at most twice-the-edge-count iterations, and the
  number of points it has appended is at most the number of iterations it has run.
  The loop is defined by recursion with a termination proof (the measure is
  \<open>maxIterations - iterations\<close>), so it returns for every input, and
  \<open>getSectorPolygon\<close>, which runs it once, is a total function of the map and the
  sector index.
\<close>

theorem traceLoop_terminates_bounded:
  "snd (traceLoop vs sectorLines used currentEndVertex 0 points) \<le> 2 * length sectorLines \<and>
   length (fst (traceLoop vs sectorLines used currentEndVertex 0 points))
     \<le> length points + snd (traceLoop vs sectorLines used currentEndVertex 0 points)"
  using traceLoop_bounds [of vs sectorLines used currentEndVertex 0 points] by simp

section \<open>Claim C5: point location\<close>

subsection \<open>The arithmetic of the distance\<close>

























subsection \<open>The fallback loop\<close>



subsection \<open>The located region\<close>







section \<open>Claim C6: the stair-step rule\<close>

text \<open>
  C6. Let a map be loaded and let \<open>sec\<close> be the region resolved at the player's
  position. When the region passes the headroom check (its ceiling is at least 56
  above its floor) and its floor differs from the player's supporting height (the eye
  height minus 41) by at most 24, \<open>updatePlayerHeight\<close> puts the player on the new
  floor, grounded and with vertical velocity 0, and changes nothing else. When the
  region passes the headroom check and its floor is more than 24 below the supporting
  height, \<open>updatePlayerHeight\<close> clears the grounded flag and changes nothing else: the
  player is not moved down. When the region fails the headroom check,
  \<open>updatePlayerHeight\<close> changes nothing, whatever the difference of the heights.
\<close>

theorem updatePlayerHeight_step:
  assumes "mapData g \<noteq> None"
    and "getCurrentSector g = Some sec"
  shows "(56 \<le> ceilingHeight sec - floorHeight sec \<and>
          \<bar>floorHeight sec - (pos_y (player g) - player_height)\<bar> \<le> 24 \<longrightarrow>
            updatePlayerHeight g =
              g\<lparr>player := (player g)\<lparr>pos_y := floorHeight sec + player_height,
                                      onGround := True, verticalVelocity := 0\<rparr>\<rparr>) \<and>
         (56 \<le> ceilingHeight sec - floorHeight sec \<and>
          floorHeight sec - (pos_y (player g) - player_height) < - 24 \<longrightarrow>
            updatePlayerHeight g = g\<lparr>player := (player g)\<lparr>onGround := False\<rparr>\<rparr>) \<and>
         (ceilingHeight sec - floorHeight sec < 56 \<longrightarrow> updatePlayerHeight g = g)"
  using assms by (auto simp: updatePlayerHeight_def player_height_def Let_def)

text \<open>
  The theorem at three states, each with the player grounded on a supporting height
  of 0 and falling at 8. A floor 16 above, under a ceiling at 128, lifts the player's
  eyes to 57 and leaves the player grounded with velocity 0. A floor 40 below, under
  a ceiling at 128, leaves the eyes at 41 and the player airborne. A floor 16 above,
  under a ceiling at 50, is a region of gap 34: nothing changes.
\<close>

lemma step_game_simps:
  "mapData (step_game fl ceil) \<noteq> None"
  "getCurrentSector (step_game fl ceil)
     = Some \<lparr>floorHeight = fl, ceilingHeight = ceil, sectorIndex = 0\<rparr>"
  "player (step_game fl ceil)
     = \<lparr>pos_x = 50, pos_y = 41, pos_z = - 50, verticalVelocity = - 8, onGround = True\<rparr>"
  by (simp_all add: getCurrentSector_def getCurrentSectorAt_def step_game_def
      square_region_def pointInPolygon_def sectorInfoOf_def)

theorem updatePlayerHeight_step_witness:
  "mapData (step_game 16 128) \<noteq> None \<and>
   getCurrentSector (step_game 16 128)
     = Some \<lparr>floorHeight = 16, ceilingHeight = 128, sectorIndex = 0\<rparr> \<and>
   player (updatePlayerHeight (step_game 16 128))
     = \<lparr>pos_x = 50, pos_y = 57, pos_z = - 50, verticalVelocity = 0, onGround = True\<rparr> \<and>
   mapData (step_game (- 40) 128) \<noteq> None \<and>
   getCurrentSector (step_game (- 40) 128)
     = Some \<lparr>floorHeight = - 40, ceilingHeight = 128, sectorIndex = 0\<rparr> \<and>
   player (updatePlayerHeight (step_game (- 40) 128))
     = \<lparr>pos_x = 50, pos_y = 41, pos_z = - 50, verticalVelocity = - 8, onGround = False\<rparr> \<and>
   mapData (step_game 16 50) \<noteq> None \<and>
   getCurrentSector (step_game 16 50)
     = Some \<lparr>floorHeight = 16, ceilingHeight = 50, sectorIndex = 0\<rparr> \<and>
   player (updatePlayerHeight (step_game 16 50))
     = \<lparr>pos_x = 50, pos_y = 41, pos_z = - 50, verticalVelocity = - 8, onGround = True\<rparr>"
  using updatePlayerHeight_step [OF step_game_simps(1,2), of 16 128]
    updatePlayerHeight_step [OF step_game_simps(1,2), of "- 40" 128]
    updatePlayerHeight_step [OF step_game_simps(1,2), of 16 50]
  by (simp add: step_game_simps player_height_def)

text \<open>
  C6 as it is written fails for a drop of 40 into a region of gap 40 (floor at -40,
  ceiling at 0): the map is loaded, the region is resolved, its floor is 40 below the
  supporting height 0, and the player stays grounded, since the headroom check
  returns before the heights are compared.
\<close>

theorem updatePlayerHeight_headroom_counterexample:
  "mapData (step_game (- 40) 0) \<noteq> None \<and>
   getCurrentSector (step_game (- 40) 0)
     = Some \<lparr>floorHeight = - 40, ceilingHeight = 0, sectorIndex = 0\<rparr> \<and>
   - 40 - (pos_y (player (step_game (- 40) 0)) - player_height) = - 40 \<and>
   onGround (player (step_game (- 40) 0)) \<and>
   onGround (player (updatePlayerHeight (step_game (- 40) 0))) \<and>
   updatePlayerHeight (step_game (- 40) 0) = step_game (- 40) 0"
  by (simp add: step_game_simps updatePlayerHeight_def player_height_def Let_def)

section \<open>Claim C7: sliding along a wall\<close>

lemma checkCollision_height:
  "checkCollision g (a, b, c) = checkCollision g (a, b', c)"
  by (simp add: checkCollision_def)

lemma checkCollision_player:
  "checkCollision (g\<lparr>player := p\<rparr>) v = checkCollision g v"
  by (simp add: checkCollision_def)

lemma updatePlayerHeight_horizontal:
  "pos_x (player (updatePlayerHeight g)) = pos_x (player g) \<and>
   pos_z (player (updatePlayerHeight g)) = pos_z (player g)"
  by (auto simp: updatePlayerHeight_def Let_def split: option.splits)

text \<open>
  C7 (as amended). For every proposed displacement whose full application is blocked,
  \<open>movePlayer\<close> retries the X component alone from the position before the move and
  applies it when that test is unobstructed; it then retries the Z component alone
  from the position reached so far. After an applied X component that second test is
  the test of the full displacement again, which is blocked, so the Z component is
  applied exactly when the X-only move is obstructed and the Z-only move from the
  position before the move is unobstructed. At most one of the two components is
  applied.
\<close>

theorem movePlayer_slide:
  assumes "checkCollision g (pos_x (player g) + mx, pos_y (player g) + my, pos_z (player g) + mz)"
  shows "(pos_x (player (movePlayer g (mx, my, mz))), pos_z (player (movePlayer g (mx, my, mz)))) =
         (if \<not> checkCollision g (pos_x (player g) + mx, pos_y (player g), pos_z (player g))
          then (pos_x (player g) + mx, pos_z (player g))
          else if \<not> checkCollision g (pos_x (player g), pos_y (player g), pos_z (player g) + mz)
          then (pos_x (player g), pos_z (player g) + mz)
          else (pos_x (player g), pos_z (player g)))"
proof -
  from assms have full: "checkCollision g (pos_x (player g) + mx, pos_y (player g), pos_z (player g) + mz)"
    by (simp add: checkCollision_height [of g _ "pos_y (player g) + my" _ "pos_y (player g)"])
  show ?thesis
    using assms full
    by (simp add: movePlayer_def Let_def copyPosition_def updatePlayerHeight_horizontal)
qed

text \<open>
  The theorem at \<open>corner_game\<close> with the displacement (10, 0, -10): the full move is
  blocked by the end of the wall, the X component is applied and the Z component is
  not.
\<close>

theorem movePlayer_slide_witness:
  "checkCollision corner_game (pos_x (player corner_game) + 10, pos_y (player corner_game) + 0,
     pos_z (player corner_game) + (- 10)) \<and>
   (pos_x (player (movePlayer corner_game (10, 0, - 10))),
    pos_z (player (movePlayer corner_game (10, 0, - 10)))) = (10, 0)"
proof -
  have p: "pos_x (player corner_game) = 0" "pos_y (player corner_game) = 41"
    "pos_z (player corner_game) = 0"
    by (simp_all add: corner_game_def)
  have c: "checkCollision corner_game (10, 41, - 10)" "\<not> checkCollision corner_game (10, 41, 0)"
    by (simp_all add: checkCollision_def corner_game_def circleLineCollision_def
        player_radius_def Let_def)
  from movePlayer_slide [of corner_game 10 0 "- 10"] p c show ?thesis by simp
qed

text \<open>
  The claim as stated fails at \<open>corner_game\<close> with the displacement (10, 0, -10). The
  full move to (10, -10) is blocked; the X component alone, to (10, 0), and the Z
  component alone, to (0, -10), are both unobstructed when tested from the position
  before the move, so the claim has both applied, which would be the blocked
  position (10, -10). \<open>movePlayer\<close> applies the X component only and ends at (10, 0).
\<close>

theorem movePlayer_independent_counterexample:
  "position (player corner_game) = (0, 41, 0) \<and>
   checkCollision corner_game (0 + 10, 41 + 0, 0 + - 10) \<and>
   \<not> checkCollision corner_game (0 + 10, 41, 0) \<and>
   \<not> checkCollision corner_game (0, 41, 0 + - 10) \<and>
   position (player (movePlayer corner_game (10, 0, - 10))) = (10, 41, 0) \<and>
   pos_z (player (movePlayer corner_game (10, 0, - 10))) \<noteq> 0 + - 10"
proof -
  have c: "checkCollision corner_game (10, 41, - 10)" "\<not> checkCollision corner_game (10, 41, 0)"
    "\<not> checkCollision corner_game (0, 41, - 10)"
    by (simp_all add: checkCollision_def corner_game_def circleLineCollision_def
        player_radius_def Let_def)
  have p: "player corner_game
           = \<lparr>pos_x = 0, pos_y = 41, pos_z = 0, verticalVelocity = 0, onGround = True\<rparr>"
    by (simp add: corner_game_def)
  have mp: "mapData corner_game \<noteq> None" by (simp add: corner_game_def)
  have fs: "floorSectors corner_game =
      [\<lparr>fs_sectorIndex = 0, polygon = [(- 200, - 200), (200, - 200), (200, 200), (- 200, 200)],
        fs_floorHeight = 0, fs_ceilingHeight = 128\<rparr>]"
    by (simp add: corner_game_def)
  have m: "player (movePlayer corner_game (10, 0, - 10))
           = \<lparr>pos_x = 10, pos_y = 41, pos_z = 0, verticalVelocity = 0, onGround = True\<rparr>"
    using c p mp fs
    by (simp add: movePlayer_def Let_def copyPosition_def checkCollision_player
        updatePlayerHeight_def getCurrentSector_def getCurrentSectorAt_def
        pointInPolygon_def sectorInfoOf_def player_height_def)
  from c p m show ?thesis by (simp add: position_def)
qed

section \<open>Pixels of a decoded patch\<close>

lemma getUint8_Inr: "getUint8 view p = Inr c \<Longrightarrow> c < 256 \<and> 0 \<le> p \<and> p < int (length view)"
proof -
  assume a: "getUint8 view p = Inr c"
  then have c: "c = unat (view ! nat p)" and r: "0 \<le> p" "p < int (length view)"
    by (auto simp: getUint8_def split: if_splits)
  have "unat (view ! nat p) < 2 ^ LENGTH(8)" by (rule unsigned_less)
  with c r show ?thesis by simp
qed

lemma pixel_index_inj:
  fixes x y x' y' W :: nat
  assumes "x < W" "x' < W" "y * W + x = y' * W + x'"
  shows "x = x' \<and> y = y'"
proof -
  from assms have "(y * W + x) mod W = (y' * W + x') mod W" by simp
  with assms(1,2) have x: "x = x'" by simp
  with assms(3) have "y * W = y' * W" by simp
  with assms(1) have "y = y'" by simp
  with x show ?thesis by simp
qed

lemma pixel_index_bound:
  fixes x y W H :: nat
  assumes "x < W" "y < H"
  shows "(y * W + x) * 4 + 3 < W * H * 4"
proof -
  from assms(2) have "Suc y \<le> H" by simp
  then have "Suc y * W \<le> H * W" by (rule mult_le_mono1)
  with assms(1) have "y * W + x < H * W" by simp
  then show ?thesis by (simp add: mult.commute)
qed

lemma writePixel_nat:
  "writePixel px (int k) (r, g, b) =
     px[k := of_nat r, k + 1 := of_nat g, k + 2 := of_nat b, k + 3 := 255]"
  by (simp add: writePixel_def)

lemma length_writePixel [simp]: "length (writePixel px k c) = length px"
  by (cases c) (simp add: writePixel_def)

lemma pixelAt_writePixel_same:
  fixes x y W :: nat
  assumes "(y * W + x) * 4 + 3 < length px"
  shows "pixelAt W (writePixel px (int ((y * W + x) * 4)) c) x y = opaque c"
proof -
  define k where "k = (y * W + x) * 4"
  obtain r g b where c: "c = (r, g, b)" by (cases c) auto
  from assms have "k + 3 < length px" by (simp add: k_def)
  then have "(px[k := of_nat r, k + 1 := of_nat g, k + 2 := of_nat b, k + 3 := 255] ! k,
         px[k := of_nat r, k + 1 := of_nat g, k + 2 := of_nat b, k + 3 := 255] ! (k + 1),
         px[k := of_nat r, k + 1 := of_nat g, k + 2 := of_nat b, k + 3 := 255] ! (k + 2),
         px[k := of_nat r, k + 1 := of_nat g, k + 2 := of_nat b, k + 3 := 255] ! (k + 3))
        = (of_nat r, of_nat g, of_nat b, 255)"
    by (simp add: nth_list_update)
  then show ?thesis
    unfolding pixelAt_def opaque_def c writePixel_nat k_def [symmetric] by simp
qed

lemma pixelAt_writePixel_other:
  fixes x y x' y' W :: nat
  assumes "x < W" "x' < W" "(x', y') \<noteq> (x, y)"
  shows "pixelAt W (writePixel px (int ((y * W + x) * 4)) c) x' y' = pixelAt W px x' y'"
proof -
  define k where "k = (y * W + x) * 4"
  define k' where "k' = (y' * W + x') * 4"
  obtain r g b where c: "c = (r, g, b)" by (cases c) auto
  have "y * W + x \<noteq> y' * W + x'"
  proof
    assume "y * W + x = y' * W + x'"
    from pixel_index_inj [OF assms(1,2) this] assms(3) show False by simp
  qed
  then have ne: "k + i \<noteq> k' + j" if "i < 4" "j < 4" for i j
    using that unfolding k_def k'_def by presburger
  have upd: "px[k := a0, k + 1 := a1, k + 2 := a2, k + 3 := a3] ! (k' + j) = px ! (k' + j)"
    if "j < 4" for j a0 a1 a2 a3
    using ne [of 0 j] ne [of 1 j] ne [of 2 j] ne [of 3 j] that by simp
  from upd [of 0] upd [of 1] upd [of 2] upd [of 3] show ?thesis
    unfolding pixelAt_def c writePixel_nat k_def [symmetric] k'_def [symmetric] by simp
qed

lemma runIndices_length: "runIndices view offs n = Inr cs \<Longrightarrow> length cs = n"
  by (induction n arbitrary: offs cs) (auto simp: bindE_Inr_iff)

lemma runIndices_Suc:
  "runIndices view offs (Suc n) = Inr cs \<Longrightarrow>
   \<exists>c cs'. getUint8 view offs = Inr c \<and> runIndices view (offs + 1) n = Inr cs' \<and> cs = c # cs'"
  by (auto simp: bindE_Inr_iff)

text \<open>
  One run: when its index bytes can be read, the loop over the run ends, and it has
  set the pixels of column \<open>x\<close> in the run's rows below the height to the colours
  of the indices and has left every other pixel as it was.
\<close>

lemma renderRun_pixels:
  fixes W H :: nat
  assumes x: "x < W" and pal: "256 \<le> length pal"
  shows "runIndices view (offs + int i) n = Inr cs \<Longrightarrow> length px = W * H * 4 \<Longrightarrow>
    \<exists>px'. renderRun view pal (int W) (int H) x rowStart offs n i px = Inr px' \<and>
          length px' = W * H * 4 \<and>
          (\<forall>x' y'. x' < W \<longrightarrow> y' < H \<longrightarrow>
             pixelAt W px' x' y' =
               (if x' = x \<and> rowStart + i \<le> y' \<and> y' < rowStart + i + n
                then opaque (pal ! (cs ! (y' - (rowStart + i))))
                else pixelAt W px x' y'))"
proof (induction n arbitrary: i px cs)
  case 0
  then show ?case by auto
next
  case (Suc n)
  from runIndices_Suc [OF Suc.prems(1)] obtain c cs' where
    rd: "getUint8 view (offs + int i) = Inr c" and
    rest: "runIndices view (offs + int i + 1) n = Inr cs'" and
    cs: "cs = c # cs'" by blast
  from getUint8_Inr [OF rd] pal have col: "arrayGet pal (int c) = Some (pal ! c)"
    by (simp add: arrayGet_def)
  have "offs + int (i + 1) = offs + int i + 1" by simp
  with rest have rest': "runIndices view (offs + int (i + 1)) n = Inr cs'"
    by (simp only:)
  show ?case
  proof (cases "rowStart + i < H")
    case True
    define px1 where "px1 = writePixel px (int (((rowStart + i) * W + x) * 4)) (pal ! c)"
    have len1: "length px1 = W * H * 4" by (simp add: px1_def Suc.prems(2))
    from Suc.IH [OF rest' len1] obtain px' where
      run: "renderRun view pal (int W) (int H) x rowStart offs n (i + 1) px1 = Inr px'" and
      len': "length px' = W * H * 4" and
      pix: "\<And>x' y'. x' < W \<Longrightarrow> y' < H \<Longrightarrow> pixelAt W px' x' y' =
              (if x' = x \<and> rowStart + (i + 1) \<le> y' \<and> y' < rowStart + (i + 1) + n
               then opaque (pal ! (cs' ! (y' - (rowStart + (i + 1)))))
               else pixelAt W px1 x' y')"
      by blast
    have off: "(int (rowStart + i) * int W + int x) * 4 = int (((rowStart + i) * W + x) * 4)"
      by simp
    have step: "renderRun view pal (int W) (int H) x rowStart offs (Suc n) i px = Inr px'"
      using True rd col run unfolding px1_def
      by (simp only: renderRun.simps bindE_simps Let_def off of_nat_less_iff if_True option.case)
    have same: "pixelAt W px1 x (rowStart + i) = opaque (pal ! c)"
      unfolding px1_def
      by (rule pixelAt_writePixel_same)
        (use pixel_index_bound [OF x True] Suc.prems(2) in simp)
    have other: "pixelAt W px1 x' y' = pixelAt W px x' y'"
      if "x' < W" "(x', y') \<noteq> (x, rowStart + i)" for x' y'
      unfolding px1_def by (rule pixelAt_writePixel_other [OF x that])
    have "pixelAt W px' x' y' =
            (if x' = x \<and> rowStart + i \<le> y' \<and> y' < rowStart + i + Suc n
             then opaque (pal ! (cs ! (y' - (rowStart + i))))
             else pixelAt W px x' y')" if b: "x' < W" "y' < H" for x' y'
    proof -
      consider (first) "x' = x" "y' = rowStart + i"
        | (later) "x' = x" "rowStart + (i + 1) \<le> y'" "y' < rowStart + (i + 1) + n"
        | (none) "\<not> (x' = x \<and> rowStart + i \<le> y' \<and> y' < rowStart + i + Suc n)"
        by fastforce
      then show ?thesis
      proof cases
        case first
        with pix [OF b] same show ?thesis by (simp add: cs)
      next
        case later
        then have "cs ! (y' - (rowStart + i)) = cs' ! (y' - (rowStart + (i + 1)))"
          by (simp add: cs nth_Cons')
        with pix [OF b] later show ?thesis by simp
      next
        case none
        then have "(x', y') \<noteq> (x, rowStart + i)" by auto
        from other [OF b(1) this] pix [OF b] none show ?thesis by auto
      qed
    qed
    with step len' show ?thesis by blast
  next
    case False
    from Suc.IH [OF rest' Suc.prems(2)] obtain px' where
      run: "renderRun view pal (int W) (int H) x rowStart offs n (i + 1) px = Inr px'" and
      len': "length px' = W * H * 4" and
      pix: "\<And>x' y'. x' < W \<Longrightarrow> y' < H \<Longrightarrow> pixelAt W px' x' y' =
              (if x' = x \<and> rowStart + (i + 1) \<le> y' \<and> y' < rowStart + (i + 1) + n
               then opaque (pal ! (cs' ! (y' - (rowStart + (i + 1)))))
               else pixelAt W px x' y')"
      by blast
    from False have nlt: "\<not> int (rowStart + i) < int H" by simp
    have step: "renderRun view pal (int W) (int H) x rowStart offs (Suc n) i px = Inr px'"
      using rd run nlt
      by (simp only: renderRun.simps bindE_simps Let_def if_False)
    have "pixelAt W px' x' y' =
            (if x' = x \<and> rowStart + i \<le> y' \<and> y' < rowStart + i + Suc n
             then opaque (pal ! (cs ! (y' - (rowStart + i))))
             else pixelAt W px x' y')" if b: "x' < W" "y' < H" for x' y'
      using pix [OF b] b(2) False by simp
    with step len' show ?thesis by blast
  qed
qed

text \<open>
  One column: when its runs can be read up to the sentinel, the loop over the runs
  ends, and every pixel of column \<open>x\<close> that a run covers has the colour of the last
  run that covers it, while every other pixel is left as it was.
\<close>

lemma renderColumn_pixels:
  fixes W H :: nat
  assumes x: "x < W" and pal: "256 \<le> length pal"
  shows "columnRuns view offs = Inr runs \<Longrightarrow> length px = W * H * 4 \<Longrightarrow>
    \<exists>px'. renderColumn view pal (int W) (int H) x offs px = Inr px' \<and>
          length px' = W * H * 4 \<and>
          (\<forall>x' y'. x' < W \<longrightarrow> y' < H \<longrightarrow>
             pixelAt W px' x' y' =
               (if x' = x
                then (case indexAt runs y' of
                        Some c \<Rightarrow> opaque (pal ! c)
                      | None \<Rightarrow> pixelAt W px x' y')
                else pixelAt W px x' y'))"
proof (induction view offs arbitrary: runs px rule: columnRuns.induct)
  case (1 view offs)
  from "1.prems"(1) obtain rs where
    rs: "getUint8 view offs = Inr rs" and
    body: "(if rs = 255 then Inr []
            else bindE (getUint8 view (offs + 1)) (\<lambda>pixelCount.
                 bindE (runIndices view (offs + 3) pixelCount) (\<lambda>cs.
                 bindE (columnRuns view (offs + 3 + (int pixelCount + 1))) (\<lambda>runs.
                   Inr ((rs, cs) # runs))))) = Inr runs"
    by (subst (asm) columnRuns.simps) (auto simp: bindE_Inr_iff)
  show ?case
  proof (cases "rs = 255")
    case True
    with body have "runs = []" by simp
    moreover from True rs have "renderColumn view pal (int W) (int H) x offs px = Inr px"
      by (subst renderColumn.simps) simp
    ultimately show ?thesis using "1.prems"(2) by simp
  next
    case False
    with body obtain pc cs runs' where
      pc: "getUint8 view (offs + 1) = Inr pc" and
      cs: "runIndices view (offs + 3) pc = Inr cs" and
      rest: "columnRuns view (offs + 3 + (int pc + 1)) = Inr runs'" and
      runs: "runs = (rs, cs) # runs'"
      by (auto simp: bindE_Inr_iff)
    from cs have cs0: "runIndices view (offs + 3 + int 0) pc = Inr cs" by simp
    from renderRun_pixels [OF x pal cs0 "1.prems"(2), of rs] obtain px1 where
      run: "renderRun view pal (int W) (int H) x rs (offs + 3) pc 0 px = Inr px1" and
      len1: "length px1 = W * H * 4" and
      pix1: "\<And>x' y'. x' < W \<Longrightarrow> y' < H \<Longrightarrow> pixelAt W px1 x' y' =
               (if x' = x \<and> rs \<le> y' \<and> y' < rs + pc
                then opaque (pal ! (cs ! (y' - rs)))
                else pixelAt W px x' y')"
      by auto
    from "1.IH" [OF rs False pc cs rest len1] obtain px' where
      col: "renderColumn view pal (int W) (int H) x (offs + 3 + (int pc + 1)) px1 = Inr px'" and
      len': "length px' = W * H * 4" and
      pix': "\<And>x' y'. x' < W \<Longrightarrow> y' < H \<Longrightarrow> pixelAt W px' x' y' =
               (if x' = x
                then (case indexAt runs' y' of
                        Some c \<Rightarrow> opaque (pal ! c)
                      | None \<Rightarrow> pixelAt W px1 x' y')
                else pixelAt W px1 x' y')"
      by blast
    have step: "renderColumn view pal (int W) (int H) x offs px = Inr px'"
      using rs False pc run col by (subst renderColumn.simps) simp
    from runIndices_length [OF cs] have lcs: "length cs = pc" .
    have "pixelAt W px' x' y' =
            (if x' = x
             then (case indexAt runs y' of
                     Some c \<Rightarrow> opaque (pal ! c)
                   | None \<Rightarrow> pixelAt W px x' y')
             else pixelAt W px x' y')" if b: "x' < W" "y' < H" for x' y'
    proof (cases "x' = x")
      case False
      with pix' [OF b] pix1 [OF b] show ?thesis by simp
    next
      case True
      show ?thesis
      proof (cases "indexAt runs' y'")
        case (Some c)
        with pix' [OF b] True show ?thesis by (simp add: runs)
      next
        case None
        with pix' [OF b] True have "pixelAt W px' x' y' = pixelAt W px1 x' y'" by simp
        also from pix1 [OF b] True have "\<dots> =
            (if rs \<le> y' \<and> y' < rs + pc then opaque (pal ! (cs ! (y' - rs)))
             else pixelAt W px x' y')" by simp
        finally show ?thesis using None True by (simp add: runs lcs)
      qed
    qed
    with step len' show ?thesis by blast
  qed
qed

text \<open>
  The columns from \<open>x\<close> on, each readable up to its sentinel: the loop over the
  columns ends, and every pixel of these columns has the colour that the runs of its
  column leave at its row, or is left as it was when no run covers it.
\<close>

lemma renderColumns_pixels:
  fixes W H :: nat
  assumes pal: "256 \<le> length pal"
  shows "x + length offs \<le> W \<Longrightarrow> length px = W * H * 4 \<Longrightarrow>
    \<forall>j<length offs. \<exists>runs. columnRuns view (offs ! j) = Inr runs \<Longrightarrow>
    \<exists>px'. renderColumns view pal (int W) (int H) x offs px = Inr px' \<and>
          length px' = W * H * 4 \<and>
          (\<forall>x' y'. x' < W \<longrightarrow> y' < H \<longrightarrow>
             pixelAt W px' x' y' =
               (if x \<le> x' \<and> x' < x + length offs
                then (case columnIndexAt view (offs ! (x' - x)) y' of
                        Some c \<Rightarrow> opaque (pal ! c)
                      | None \<Rightarrow> pixelAt W px x' y')
                else pixelAt W px x' y'))"
proof (induction offs arbitrary: x px)
  case Nil
  then show ?case by auto
next
  case (Cons off offs)
  from Cons.prems(1) have x: "x < W" and x1: "(x + 1) + length offs \<le> W" by simp_all
  from Cons.prems(3) obtain runs where runs: "columnRuns view off = Inr runs" by fastforce
  from Cons.prems(3) have rest: "\<forall>j<length offs. \<exists>runs. columnRuns view (offs ! j) = Inr runs"
    by fastforce
  from renderColumn_pixels [OF x pal runs Cons.prems(2)] obtain px1 where
    col: "renderColumn view pal (int W) (int H) x off px = Inr px1" and
    len1: "length px1 = W * H * 4" and
    pix1: "\<And>x' y'. x' < W \<Longrightarrow> y' < H \<Longrightarrow> pixelAt W px1 x' y' =
             (if x' = x
              then (case indexAt runs y' of
                      Some c \<Rightarrow> opaque (pal ! c)
                    | None \<Rightarrow> pixelAt W px x' y')
              else pixelAt W px x' y')"
    by blast
  from Cons.IH [OF x1 len1 rest] obtain px' where
    cols: "renderColumns view pal (int W) (int H) (x + 1) offs px1 = Inr px'" and
    len': "length px' = W * H * 4" and
    pix': "\<And>x' y'. x' < W \<Longrightarrow> y' < H \<Longrightarrow> pixelAt W px' x' y' =
             (if x + 1 \<le> x' \<and> x' < (x + 1) + length offs
              then (case columnIndexAt view (offs ! (x' - (x + 1))) y' of
                      Some c \<Rightarrow> opaque (pal ! c)
                    | None \<Rightarrow> pixelAt W px1 x' y')
              else pixelAt W px1 x' y')"
    by blast
  have step: "renderColumns view pal (int W) (int H) x (off # offs) px = Inr px'"
    using col cols by simp
  have "pixelAt W px' x' y' =
          (if x \<le> x' \<and> x' < x + length (off # offs)
           then (case columnIndexAt view ((off # offs) ! (x' - x)) y' of
                   Some c \<Rightarrow> opaque (pal ! c)
                 | None \<Rightarrow> pixelAt W px x' y')
           else pixelAt W px x' y')" if b: "x' < W" "y' < H" for x' y'
  proof -
    consider (here) "x' = x" | (later) "x + 1 \<le> x'" "x' < (x + 1) + length offs"
      | (none) "\<not> (x \<le> x' \<and> x' < x + length (off # offs))"
      by fastforce
    then show ?thesis
    proof cases
      case here
      then have "\<not> (x + 1 \<le> x' \<and> x' < (x + 1) + length offs)" by simp
      with pix' [OF b] have "pixelAt W px' x' y' = pixelAt W px1 x' y'" by (simp only: if_False)
      also from pix1 [OF b] here have "\<dots> =
          (case indexAt runs y' of Some c \<Rightarrow> opaque (pal ! c) | None \<Rightarrow> pixelAt W px x' y')"
        by simp
      finally show ?thesis using here by (simp add: columnIndexAt_def runs)
    next
      case later
      then have nth: "(off # offs) ! (x' - x) = offs ! (x' - (x + 1))"
        by (simp add: nth_Cons')
      from later have ne: "x' \<noteq> x" by simp
      from pix1 [OF b] ne have p1: "pixelAt W px1 x' y' = pixelAt W px x' y'" by simp
      from pix' [OF b] later have "pixelAt W px' x' y' =
          (case columnIndexAt view (offs ! (x' - (x + 1))) y' of
             Some c \<Rightarrow> opaque (pal ! c) | None \<Rightarrow> pixelAt W px1 x' y')"
        by (simp only: simp_thms if_True)
      with later show ?thesis by (simp add: nth p1 split: option.splits)
    next
      case none
      then have ne: "x' \<noteq> x" and out: "\<not> (x + 1 \<le> x' \<and> x' < (x + 1) + length offs)"
        by auto
      from pix' [OF b] out have "pixelAt W px' x' y' = pixelAt W px1 x' y'"
        by (simp only: if_False)
      also from pix1 [OF b] ne have "\<dots> = pixelAt W px x' y'" by simp
      finally show ?thesis using none by (simp only: if_False)
    qed
  qed
  with step len' show ?case by blast
qed

lemma getPatch_loop_length:
  "getPatch_loop view n i offs = Inr offs' \<Longrightarrow> length offs' = length offs + n"
proof (induction n arbitrary: i offs)
  case 0
  then show ?case by simp
next
  case (Suc n)
  from Suc.prems obtain off where
    "getPatch_loop view n (i + 1) (offs @ [off]) = Inr offs'"
    by (auto simp: bindE_Inr_iff)
  from Suc.IH [OF this] show ?case by simp
qed

text \<open>A patch that \<open>getPatch\<close> returns has exactly \<open>width\<close> column offsets.\<close>

lemma getPatch_columnOffsets:
  "getPatch w nm = Inr (Some p) \<Longrightarrow> length (columnOffsets p) = nat (width p)"
  by (auto simp: getPatch_def bindE_Inr_iff split: option.splits dest!: getPatch_loop_length)

lemma count_run_rows:
  "length (filter (\<lambda>y. r \<le> y \<and> y < r + n) [0..<H]) = min (r + n) H - min r H"
  by (induction H) (auto simp: min_def)

lemma pixelAt_replicate:
  fixes x y W H :: nat
  assumes "x < W" "y < H"
  shows "pixelAt W (replicate (W * H * 4) 0) x y = (0, 0, 0, 0)"
proof -
  from pixel_index_bound [OF assms] have "(y * W + x) * 4 + 3 < W * H * 4" .
  then show ?thesis by (simp add: pixelAt_def)
qed

section \<open>Claim C8: the pixels of a decoded patch\<close>

text \<open>
  C8 (as amended). Take a patch with non-negative width and height and with one column
  offset per column, as \<open>getPatch\<close> builds it, whose columns can each be read up to
  the end-of-column sentinel, and a palette of at least 256 entries. Then
  \<open>renderPatch\<close> returns a buffer of exactly width times height pixels of four bytes.
  Every pixel of the buffer that a run of its column covers has alpha 255 and the RGB
  bytes of the palette entry of the index that the last covering run gives it, and
  every other pixel keeps the four bytes 0. Rows of a run that are not below the
  patch's height are dropped, so in a column that consists of a single run of \<open>N\<close> pixels from
  row \<open>r\<close> the number of opaque pixels is
  \<open>min (r + N) height - min r height\<close>, which is \<open>N\<close> when the run fits the height.
\<close>

theorem renderPatch_pixels:
  assumes "0 \<le> width p" and "0 \<le> height p"
    and "length (columnOffsets p) = nat (width p)"
    and "256 \<le> length pal"
    and "\<forall>x<nat (width p). \<exists>runs. columnRuns (data p) (columnOffsets p ! x) = Inr runs"
  shows "\<exists>pic. renderPatch p pal = Inr pic \<and>
           pic_width pic = width p \<and> pic_height pic = height p \<and>
           length (pixels pic) = nat (width p) * nat (height p) * 4 \<and>
           (\<forall>x<nat (width p). \<forall>y<nat (height p).
              pixelAt (nat (width p)) (pixels pic) x y =
                (case columnIndexAt (data p) (columnOffsets p ! x) y of
                   Some c \<Rightarrow> opaque (pal ! c)
                 | None \<Rightarrow> (0, 0, 0, 0))) \<and>
           (\<forall>x<nat (width p). \<forall>r cs.
              columnRuns (data p) (columnOffsets p ! x) = Inr [(r, cs)] \<longrightarrow>
              length (opaqueRows (nat (width p)) (nat (height p)) (pixels pic) x) =
                min (r + length cs) (nat (height p)) - min r (nat (height p)))"
proof -
  define W where "W = nat (width p)"
  define H where "H = nat (height p)"
  from assms(1,2) have w: "width p = int W" and h: "height p = int H"
    by (simp_all add: W_def H_def)
  have size: "nat (width p * height p * 4) = W * H * 4"
    unfolding w h by (simp add: nat_mult_distrib)
  have "0 \<le> int W * int H" by simp
  then have nonneg: "\<not> width p * height p * 4 < 0"
    unfolding w h by linarith
  have len0: "length (replicate (W * H * 4) (0 :: byte)) = W * H * 4" by simp
  from assms(3) have fit: "0 + length (columnOffsets p) \<le> W" by (simp add: W_def)
  from assms(3,5) have readable:
    "\<forall>j<length (columnOffsets p). \<exists>runs. columnRuns (data p) (columnOffsets p ! j) = Inr runs"
    by simp
  from renderColumns_pixels [OF assms(4) fit len0 readable] obtain px where
    cols: "renderColumns (data p) pal (int W) (int H) 0 (columnOffsets p)
             (replicate (W * H * 4) 0) = Inr px" and
    len: "length px = W * H * 4" and
    pix: "\<And>x y. x < W \<Longrightarrow> y < H \<Longrightarrow> pixelAt W px x y =
            (if 0 \<le> x \<and> x < 0 + length (columnOffsets p)
             then (case columnIndexAt (data p) (columnOffsets p ! (x - 0)) y of
                     Some c \<Rightarrow> opaque (pal ! c)
                   | None \<Rightarrow> pixelAt W (replicate (W * H * 4) 0) x y)
             else pixelAt W (replicate (W * H * 4) 0) x y)"
    by blast
  have pix': "pixelAt W px x y =
                (case columnIndexAt (data p) (columnOffsets p ! x) y of
                   Some c \<Rightarrow> opaque (pal ! c)
                 | None \<Rightarrow> (0, 0, 0, 0))" if b: "x < W" "y < H" for x y
  proof -
    from b(1) assms(3) have "x < length (columnOffsets p)" by (simp add: W_def)
    with pix [OF b] pixelAt_replicate [OF b] show ?thesis
      by (simp split: option.splits)
  qed
  have res: "renderPatch p pal = Inr \<lparr>pic_width = width p, pic_height = height p, pixels = px\<rparr>"
    using cols nonneg by (simp add: renderPatch_def size w [symmetric] h [symmetric])
  have rows: "length (opaqueRows W H px x) = min (r + length cs) H - min r H"
    if b: "x < W" and runs: "columnRuns (data p) (columnOffsets p ! x) = Inr [(r, cs)]"
    for x r cs
  proof -
    have alpha: "(px ! ((y * W + x) * 4 + 3) = 255) = (r \<le> y \<and> y < r + length cs)"
      if "y < H" for y
    proof -
      from pix' [OF b that] runs
      have "pixelAt W px x y =
              (if r \<le> y \<and> y < r + length cs then opaque (pal ! (cs ! (y - r)))
               else (0, 0, 0, 0))"
        by (simp add: columnIndexAt_def)
      then show ?thesis
        by (cases "pal ! (cs ! (y - r))") (auto simp: pixelAt_def opaque_def split: if_splits)
    qed
    have "opaqueRows W H px x = filter (\<lambda>y. r \<le> y \<and> y < r + length cs) [0..<H]"
      unfolding opaqueRows_def
    proof (rule filter_cong)
      show "[0..<H] = [0..<H]" ..
    next
      fix y assume "y \<in> set [0..<H]"
      then have "y < H" by simp
      from alpha [OF this]
      show "(px ! ((y * W + x) * 4 + 3) = 255) = (r \<le> y \<and> y < r + length cs)" .
    qed
    then show ?thesis by (simp add: count_run_rows)
  qed
  from res len pix' rows show ?thesis
    unfolding W_def [symmetric] H_def [symmetric] by simp
qed

text \<open>
  The theorem at \<open>post_patch\<close> with the grayscale palette: the single run of 3 pixels
  from row 1 fits the height 5 and gives exactly the 3 opaque pixels of rows 1, 2 and
  3, with the colours of the indices 5, 6 and 7.
\<close>

theorem renderPatch_pixels_witness:
  "0 \<le> width post_patch \<and> 0 \<le> height post_patch \<and>
   length (columnOffsets post_patch) = nat (width post_patch) \<and>
   256 \<le> length getDefaultPalette \<and>
   nat (width post_patch) = 1 \<and>
   columnRuns (data post_patch) (columnOffsets post_patch ! 0) = Inr [(1, [5, 6, 7])] \<and>
   renderPatch post_patch getDefaultPalette =
     Inr \<lparr>pic_width = 1, pic_height = 5,
          pixels = [0, 0, 0, 0,  5, 5, 5, 255,  6, 6, 6, 255,  7, 7, 7, 255,  0, 0, 0, 0]\<rparr> \<and>
   length (opaqueRows 1 5
             [0, 0, 0, 0,  5, 5, 5, 255,  6, 6, 6, 255,  7, 7, 7, 255,  0, 0, 0, 0] 0) = 3"
proof -
  have d: "0 \<le> width post_patch" "0 \<le> height post_patch"
    "length (columnOffsets post_patch) = nat (width post_patch)"
    "nat (width post_patch) = 1" "nat (height post_patch) = 5"
    by (simp_all add: post_patch_def)
  have pl: "256 \<le> length getDefaultPalette" by (simp add: getDefaultPalette_def)
  have runs: "columnRuns (data post_patch) (columnOffsets post_patch ! 0) = Inr [(1, [5, 6, 7])]"
    unfolding post_patch_def post_data_def by code_simp
  have res: "renderPatch post_patch getDefaultPalette =
     Inr \<lparr>pic_width = 1, pic_height = 5,
          pixels = [0, 0, 0, 0,  5, 5, 5, 255,  6, 6, 6, 255,  7, 7, 7, 255,  0, 0, 0, 0]\<rparr>"
    unfolding post_patch_def post_data_def getDefaultPalette_def by code_simp
  from runs d(4) have rd: "\<forall>x<nat (width post_patch).
      \<exists>runs. columnRuns (data post_patch) (columnOffsets post_patch ! x) = Inr runs"
    by simp
  from renderPatch_pixels [OF d(1) d(2) d(3) pl rd] res runs d(4) d(5)
  have "length (opaqueRows 1 5
             [0, 0, 0, 0,  5, 5, 5, 255,  6, 6, 6, 255,  7, 7, 7, 255,  0, 0, 0, 0] 0) = 3"
    by simp
  with d pl runs res show ?thesis by simp
qed

text \<open>
  The claim as stated fails at \<open>clipped_patch\<close>: its only column is a single run of
  \<open>N = 3\<close> pixels from row 1, the patch has height 3, and the decoded buffer has 2
  opaque pixels in that column (rows 1 and 2), not 3: the run's row 3 is dropped by
  the test \<open>y < patch.height\<close>. It fails as well at \<open>open_patch\<close>, whose column has no
  end-of-column sentinel: \<open>renderPatch\<close> throws RangeError and returns no buffer.
\<close>

theorem renderPatch_clipped_counterexample:
  "width clipped_patch = 1 \<and> height clipped_patch = 3 \<and>
   columnRuns (data clipped_patch) (columnOffsets clipped_patch ! 0) = Inr [(1, [5, 6, 7])] \<and>
   renderPatch clipped_patch getDefaultPalette =
     Inr \<lparr>pic_width = 1, pic_height = 3,
          pixels = [0, 0, 0, 0,  5, 5, 5, 255,  6, 6, 6, 255]\<rparr> \<and>
   opaqueRows 1 3 [0, 0, 0, 0,  5, 5, 5, 255,  6, 6, 6, 255] 0 = [1, 2] \<and>
   length (opaqueRows 1 3 [0, 0, 0, 0,  5, 5, 5, 255,  6, 6, 6, 255] 0) \<noteq> 3 \<and>
   renderPatch open_patch getDefaultPalette = Inl RangeError"
proof -
  have d: "width clipped_patch = 1" "height clipped_patch = 3"
    by (simp_all add: clipped_patch_def)
  have runs: "columnRuns (data clipped_patch) (columnOffsets clipped_patch ! 0)
              = Inr [(1, [5, 6, 7])]"
    unfolding clipped_patch_def by code_simp
  have res: "renderPatch clipped_patch getDefaultPalette =
     Inr \<lparr>pic_width = 1, pic_height = 3,
          pixels = [0, 0, 0, 0,  5, 5, 5, 255,  6, 6, 6, 255]\<rparr>"
    unfolding clipped_patch_def getDefaultPalette_def by code_simp
  have rows: "opaqueRows 1 3 [0, 0, 0, 0,  5, 5, 5, 255,  6, 6, 6, 255] 0 = [1, 2]"
    by code_simp
  have opn: "renderPatch open_patch getDefaultPalette = Inl RangeError"
    unfolding open_patch_def getDefaultPalette_def by code_simp
  from d runs res rows opn show ?thesis by simp
qed

end
